theory Spec2Isabelle
  imports Complex_Main "HOL-Library.Sublist"
begin

section \<open>Python strings\<close>

text \<open>
  A Python \<open>str\<close> is modelled as a \<open>string\<close>: a list of 8-bit characters, read as the
  code points 0..255. The predicates below are Python's own tables restricted to that
  range.
\<close>

text \<open>
  The characters \<open>str.split()\<close>, \<open>str.strip()\<close> and the regular expression class
  \<open>\s\<close> treat as whitespace: TAB, LF, VT, FF, CR, the separators 0x1C..0x1F, the space,
  NEL (0x85) and the no-break space (0xA0).
\<close>

definition is_space :: "char \<Rightarrow> bool" where
  "is_space c =
     (let n = (of_char c :: nat)
      in (9 \<le> n \<and> n \<le> 13) \<or> (28 \<le> n \<and> n \<le> 32) \<or> n = 133 \<or> n = 160)"

text \<open>\<open>str.lower()\<close>: A..Z and the upper-case letters of 0xC0..0xDE (0xD7 is the
  multiplication sign) move up by 32.\<close>

definition lower_char :: "char \<Rightarrow> char" where
  "lower_char c =
     (let n = (of_char c :: nat)
      in if (65 \<le> n \<and> n \<le> 90) \<or> (192 \<le> n \<and> n \<le> 222 \<and> n \<noteq> 215)
         then char_of (n + 32) else c)"

definition lower :: "string \<Rightarrow> string" where
  "lower s = map lower_char s"

text \<open>\<open>s.strip()\<close> and \<open>s.strip(chars)\<close>.\<close>

definition strip_with :: "(char \<Rightarrow> bool) \<Rightarrow> string \<Rightarrow> string" where
  "strip_with p s = rev (dropWhile p (rev (dropWhile p s)))"

definition strip :: "string \<Rightarrow> string" where
  "strip s = strip_with is_space s"

text \<open>\<open>s.split()\<close>: the maximal runs of non-whitespace characters, in order. The loop
  carries the word being read, reversed.\<close>

fun split_loop :: "string \<Rightarrow> string \<Rightarrow> string list" where
  "split_loop cur [] = (if cur = [] then [] else [rev cur])"
| "split_loop cur (c # cs) =
     (if is_space c then (if cur = [] then split_loop [] cs else rev cur # split_loop [] cs)
      else split_loop (c # cur) cs)"

definition split_ws :: "string \<Rightarrow> string list" where
  "split_ws s = split_loop [] s"

text \<open>\<open>sep.join(parts)\<close>.\<close>

fun join :: "string \<Rightarrow> string list \<Rightarrow> string" where
  "join sep [] = []"
| "join sep [w] = w"
| "join sep (w # v # ws) = w @ sep @ join sep (v # ws)"

text \<open>\<open>xs[i:j]\<close> for Python integers \<open>i\<close>, \<open>j\<close>: a negative index counts from the
  end, and both are clamped to the list.\<close>

definition slice_index :: "nat \<Rightarrow> int \<Rightarrow> nat" where
  "slice_index n i = (if i < 0 then nat (max 0 (int n + i)) else min n (nat i))"

definition py_slice :: "'a list \<Rightarrow> int \<Rightarrow> int \<Rightarrow> 'a list" where
  "py_slice xs i j =
     (let a = slice_index (length xs) i; b = slice_index (length xs) j
      in take (b - a) (drop a xs))"

section \<open>Frame selection\<close>

text \<open>
  A frame is the dictionary \<open>{'path': Path, 'time': float}\<close> built by \<open>extract_frames\<close>.
  Times are finite floats compared with \<open>\<le>\<close>; they are modelled as rationals. A
  \<open>Path\<close> object is always truthy, so \<open>closest or frames[0]["path"]\<close> takes the first
  frame exactly when the loop left \<open>closest\<close> at \<open>None\<close>.
\<close>

record frame =
  path :: string
  time :: rat

fun closest_loop :: "rat \<Rightarrow> frame list \<Rightarrow> string option \<Rightarrow> string option" where
  "closest_loop target_time [] closest = closest"
| "closest_loop target_time (f # fs) closest =
     (if time f \<le> target_time then closest_loop target_time fs (Some (path f))
      else closest)"

definition find_closest_frame :: "rat \<Rightarrow> frame list \<Rightarrow> string option" where
  "find_closest_frame target_time frames =
     (if frames = [] then None
      else (case closest_loop target_time frames None of
              Some p \<Rightarrow> Some p
            | None \<Rightarrow> Some (path (hd frames))))"

section \<open>Properties of frame selection\<close>

lemma closest_loop_none_before:
  "sorted (map time fs) \<Longrightarrow> \<forall>f \<in> set fs. \<not> time f \<le> t \<Longrightarrow> closest_loop t fs c = c"
  by (cases fs) auto

lemma closest_loop_sorted:
  "sorted (map time fs) \<Longrightarrow>
   closest_loop t fs c =
     (if filter (\<lambda>f. time f \<le> t) fs = [] then c
      else Some (path (last (filter (\<lambda>f. time f \<le> t) fs))))"
proof (induction fs arbitrary: c)
  case Nil
  then show ?case by simp
next
  case (Cons f fs)
  show ?case
  proof (cases "time f \<le> t")
    case True
    from Cons.prems have "sorted (map time fs)" by simp
    from Cons.IH [OF this] True show ?thesis by simp
  next
    case False
    from Cons.prems have "\<forall>g \<in> set fs. time f \<le> time g" by simp
    with False have "\<forall>g \<in> set fs. \<not> time g \<le> t" by fastforce
    then have "filter (\<lambda>f. time f \<le> t) fs = []" by (simp add: filter_empty_conv)
    with False show ?thesis by simp
  qed
qed

text \<open>
  C4. For frames in non-decreasing time order: no frames give no path; otherwise the
  frames at or before the target form the list \<open>filter\<close> keeps, the answer is the path
  of the last of them, and when there is none it is the path of the first frame.
\<close>

theorem find_closest_frame_latest:
  assumes "sorted (map time frames)"
  shows "find_closest_frame t frames =
     (if frames = [] then None
      else if filter (\<lambda>f. time f \<le> t) frames = [] then Some (path (hd frames))
      else Some (path (last (filter (\<lambda>f. time f \<le> t) frames))))"
  using closest_loop_sorted [OF assms, of t None]
  by (simp add: find_closest_frame_def)

theorem find_closest_frame_latest_witness:
  "find_closest_frame 15
     [\<lparr>path = ''f_0001.jpg'', time = 0\<rparr>, \<lparr>path = ''f_0002.jpg'', time = 10\<rparr>,
      \<lparr>path = ''f_0003.jpg'', time = 20\<rparr>] = Some ''f_0002.jpg'' \<and>
   find_closest_frame 0
     [\<lparr>path = ''f_0001.jpg'', time = 0\<rparr>, \<lparr>path = ''f_0002.jpg'', time = 10\<rparr>,
      \<lparr>path = ''f_0003.jpg'', time = 20\<rparr>] = Some ''f_0001.jpg'' \<and>
   find_closest_frame (- 1)
     [\<lparr>path = ''f_0001.jpg'', time = 0\<rparr>, \<lparr>path = ''f_0002.jpg'', time = 10\<rparr>,
      \<lparr>path = ''f_0003.jpg'', time = 20\<rparr>] = Some ''f_0001.jpg'' \<and>
   find_closest_frame 15 [] = None"
proof -
  let ?fs = "[\<lparr>path = ''f_0001.jpg'', time = 0\<rparr>, \<lparr>path = ''f_0002.jpg'', time = 10\<rparr>,
      \<lparr>path = ''f_0003.jpg'', time = 20\<rparr>]"
  have s: "sorted (map time ?fs)" by simp
  have e: "sorted (map time ([] :: frame list))" by simp
  show ?thesis
    using find_closest_frame_latest [OF s, of 15] find_closest_frame_latest [OF s, of 0]
      find_closest_frame_latest [OF s, of "- 1"] find_closest_frame_latest [OF e, of 15]
    by simp
qed

section \<open>Timestamp alignment\<close>

text \<open>
  A caption segment is the dictionary \<open>{"start": seconds, "text": text}\<close> built by
  \<open>parse_vtt_timestamps\<close>; the start is a finite float, modelled as a rational.
  \<open>a in b\<close> on strings is \<open>sublist a b\<close>.
\<close>

record caption =
  seg_start :: rat
  seg_text :: string

definition first_words :: "string \<Rightarrow> string" where
  "first_words chunk_text = lower (join '' '' (take 5 (split_ws chunk_text)))"

fun anchor_loop :: "string \<Rightarrow> caption list \<Rightarrow> rat option" where
  "anchor_loop fw [] = None"
| "anchor_loop fw (seg # segs) =
     (if sublist fw (lower (seg_text seg)) then Some (seg_start seg)
      else anchor_loop fw segs)"

definition find_start_time_for_chunk :: "string \<Rightarrow> caption list \<Rightarrow> rat" where
  "find_start_time_for_chunk chunk_text segments =
     (case anchor_loop (first_words chunk_text) segments of
        Some t \<Rightarrow> t
      | None \<Rightarrow> (if segments \<noteq> [] then seg_start (hd segments) else 0))"

section \<open>Properties of timestamp alignment\<close>

lemma join_Cons: "join sep (w # ws) = w @ (if ws = [] then [] else sep @ join sep ws)"
  by (cases ws) simp_all

lemma anchor_loop_find:
  "anchor_loop fw segs =
     map_option seg_start (find (\<lambda>seg. sublist fw (lower (seg_text seg))) segs)"
  by (induction segs) simp_all

lemma sublist_append_left: "sublist (a @ b) y \<Longrightarrow> sublist a y"
  unfolding sublist_def by (metis append.assoc)

lemma first_words_foo_bar_baz:
  assumes "take 3 (split_ws chunk) = [''foo'', ''bar'', ''baz'']"
  shows "\<exists>r. first_words chunk = ''foo bar baz'' @ r"
proof -
  from assms obtain rest where ws: "split_ws chunk = ''foo'' # ''bar'' # ''baz'' # rest"
    by (cases "split_ws chunk"; simp;
        cases "tl (split_ws chunk)"; simp;
        cases "tl (tl (split_ws chunk))"; simp)
  have "join '' '' (take 5 (split_ws chunk)) =
      ''foo bar baz'' @ (if take 2 rest = [] then [] else '' '' @ join '' '' (take 2 rest))"
    by (simp add: ws join_Cons numeral_eq_Suc)
  then show ?thesis
    by (simp add: first_words_def lower_def lower_char_def)
qed

text \<open>
  C3 (as the code has it). The anchor is the whole lower-cased, space-joined prefix of
  up to five words, and it must occur inside one caption's lower-cased text. The answer
  is the start of the first such caption; with none, the first caption's start, or 0
  without captions. A chunk that starts with the words foo, bar, baz has an anchor of
  at least eleven characters, which neither "hello world" nor "foo bar" contains: the
  answer for the two captions of the example is the first caption's 0, not 5.
\<close>

theorem find_start_time_for_chunk_anchor:
  "find_start_time_for_chunk chunk segs =
     (case find (\<lambda>seg. sublist (first_words chunk) (lower (seg_text seg))) segs of
        Some seg \<Rightarrow> seg_start seg
      | None \<Rightarrow> (if segs = [] then 0 else seg_start (hd segs))) \<and>
   (take 3 (split_ws chunk) = [''foo'', ''bar'', ''baz''] \<longrightarrow>
      find_start_time_for_chunk chunk
        [\<lparr>seg_start = 0, seg_text = ''hello world''\<rparr>,
         \<lparr>seg_start = 5, seg_text = ''foo bar''\<rparr>] = 0)"
proof (intro conjI impI)
  show "find_start_time_for_chunk chunk segs =
     (case find (\<lambda>seg. sublist (first_words chunk) (lower (seg_text seg))) segs of
        Some seg \<Rightarrow> seg_start seg
      | None \<Rightarrow> (if segs = [] then 0 else seg_start (hd segs)))"
    by (simp add: find_start_time_for_chunk_def anchor_loop_find split: option.splits)
next
  assume "take 3 (split_ws chunk) = [''foo'', ''bar'', ''baz'']"
  then obtain r where fw: "first_words chunk = ''foo bar baz'' @ r"
    using first_words_foo_bar_baz by blast
  have n1: "\<not> sublist ''foo bar baz'' ''hello world''"
    by (simp add: sublist_code)
  have n2: "\<not> sublist ''foo bar baz'' ''foo bar''"
    by (simp add: sublist_code)
  have "\<not> sublist (first_words chunk) ''hello world''"
    and "\<not> sublist (first_words chunk) ''foo bar''"
    using n1 n2 sublist_append_left unfolding fw by blast+
  then show "find_start_time_for_chunk chunk
        [\<lparr>seg_start = 0, seg_text = ''hello world''\<rparr>,
         \<lparr>seg_start = 5, seg_text = ''foo bar''\<rparr>] = 0"
    by (simp add: find_start_time_for_chunk_def lower_def lower_char_def)
qed

theorem find_start_time_for_chunk_anchor_witness:
  "find_start_time_for_chunk ''foo bar baz qux''
     [\<lparr>seg_start = 0, seg_text = ''hello world''\<rparr>,
      \<lparr>seg_start = 5, seg_text = ''foo bar''\<rparr>] = 0 \<and>
   find_start_time_for_chunk ''Foo  BAR''
     [\<lparr>seg_start = 0, seg_text = ''hello world''\<rparr>,
      \<lparr>seg_start = 5, seg_text = ''foo bar''\<rparr>] = 5"
proof -
  have w: "take 3 (split_ws ''foo bar baz qux'') = [''foo'', ''bar'', ''baz'']"
    by (simp add: split_ws_def is_space_def)
  have fw: "first_words ''Foo  BAR'' = ''foo bar''"
    by code_simp
  have a: "find_start_time_for_chunk ''foo bar baz qux''
     [\<lparr>seg_start = 0, seg_text = ''hello world''\<rparr>,
      \<lparr>seg_start = 5, seg_text = ''foo bar''\<rparr>] = 0"
    using find_start_time_for_chunk_anchor [of "''foo bar baz qux''"] w by blast
  have b: "find_start_time_for_chunk ''Foo  BAR''
     [\<lparr>seg_start = 0, seg_text = ''hello world''\<rparr>,
      \<lparr>seg_start = 5, seg_text = ''foo bar''\<rparr>] = 5"
    using find_start_time_for_chunk_anchor
      [of "''Foo  BAR''" "[\<lparr>seg_start = 0, seg_text = ''hello world''\<rparr>,
        \<lparr>seg_start = 5, seg_text = ''foo bar''\<rparr>]"]
    by (simp add: fw lower_def lower_char_def sublist_code)
  from a b show ?thesis by simp
qed

theorem find_start_time_for_chunk_counterexample:
  "find_start_time_for_chunk ''foo bar baz''
     [\<lparr>seg_start = 0, seg_text = ''hello world''\<rparr>,
      \<lparr>seg_start = 5, seg_text = ''foo bar''\<rparr>] \<noteq> 5"
  by (simp add: find_start_time_for_chunk_def first_words_def split_ws_def is_space_def
      lower_def lower_char_def sublist_code)

section \<open>The chunker\<close>

text \<open>
  \<open>chunk_text_by_words\<close> is the same function in \<open>process_pipeline.py\<close> and in
  \<open>pipeline/utils.py\<close>. The index \<open>i\<close> and the target are Python integers. The
  \<open>while\<close> loop may run forever, so it is a partial function into \<open>option\<close>:
  \<open>None\<close> is the loop that never returns.
\<close>

definition next_index :: "string list \<Rightarrow> int \<Rightarrow> int \<Rightarrow> int" where
  "next_index words target i = min (int (length words)) (i + target)"

partial_function (option) chunk_loop ::
  "string list \<Rightarrow> int \<Rightarrow> int \<Rightarrow> string list \<Rightarrow> string list option" where
  "chunk_loop words target i chunks =
     (if i < int (length words)
      then let j = next_index words target i
           in chunk_loop words target j (chunks @ [join '' '' (py_slice words i j)])
      else Some chunks)"

declare chunk_loop.simps [code]

definition chunk_text_by_words :: "string \<Rightarrow> int \<Rightarrow> string list option" where
  "chunk_text_by_words text target = chunk_loop (split_ws text) target 0 []"


section \<open>Properties of the chunker\<close>

text \<open>For the proofs: a list cut into consecutive pieces of \<open>n\<close> elements, the last
  one possibly shorter.\<close>

fun pieces :: "nat \<Rightarrow> 'a list \<Rightarrow> 'a list list" where
  "pieces n xs = (if xs = [] \<or> n = 0 then [] else take n xs # pieces n (drop n xs))"

declare pieces.simps [simp del]

lemma chunk_loop_stuck:
  assumes "chunk_loop words target i chunks = Some r"
  shows "\<not> (target \<le> 0 \<and> i < int (length words))"
proof (rule chunk_loop.raw_induct
    [where P = "\<lambda>words target i chunks r. \<not> (target \<le> 0 \<and> i < int (length words))",
      OF _ assms])
  fix f :: "string list \<Rightarrow> int \<Rightarrow> int \<Rightarrow> string list \<Rightarrow> string list option"
    and ws :: "string list" and t k :: int and cs rs :: "string list"
  assume IH: "\<And>ws t k cs rs. f ws t k cs = Some rs \<Longrightarrow> \<not> (t \<le> 0 \<and> k < int (length ws))"
  assume step: "(if k < int (length ws)
      then let j = next_index ws t k
           in f ws t j (cs @ [join '' '' (py_slice ws k j)])
      else Some cs) = Some rs"
  show "\<not> (t \<le> 0 \<and> k < int (length ws))"
  proof
    assume a: "t \<le> 0 \<and> k < int (length ws)"
    then have "next_index ws t k < int (length ws)"
      by (simp add: next_index_def)
    moreover from a step have "f ws t (next_index ws t k)
        (cs @ [join '' '' (py_slice ws k (next_index ws t k))]) = Some rs"
      by (simp add: Let_def)
    ultimately show False using IH a by blast
  qed
qed

lemma next_index_nat:
  "1 \<le> t \<Longrightarrow> next_index ws t (int n) = int (min (length ws) (n + nat t))"
  unfolding next_index_def min_def by (simp; linarith)

lemma py_slice_step:
  assumes "n < length ws" "1 \<le> t"
  shows "py_slice ws (int n) (next_index ws t (int n)) = take (nat t) (drop n ws)"
proof -
  have j: "next_index ws t (int n) = int (min (length ws) (n + nat t))"
    using assms by (simp add: next_index_nat)
  show ?thesis
    unfolding j using assms
    by (auto simp: py_slice_def slice_index_def Let_def min_def)
qed

lemma chunk_loop_total:
  assumes "1 \<le> t"
  shows "n \<le> length ws \<Longrightarrow>
    chunk_loop ws t (int n) cs = Some (cs @ map (join '' '') (pieces (nat t) (drop n ws)))"
proof (induction "length ws - n" arbitrary: n cs rule: less_induct)
  case less
  show ?case
  proof (cases "n < length ws")
    case False
    with less.prems have "n = length ws" by simp
    then show ?thesis
      by (subst chunk_loop.simps) (simp add: pieces.simps)
  next
    case True
    define m where "m = min (length ws) (n + nat t)"
    have j: "next_index ws t (int n) = int m"
      using assms by (simp add: next_index_nat m_def)
    have m: "m \<le> length ws" "length ws - m < length ws - n"
      using True assms by (auto simp: m_def min_def)
    have d: "drop m ws = drop (nat t) (drop n ws)"
      by (auto simp: m_def min_def add.commute)
    have c: "pieces (nat t) (drop n ws) =
        take (nat t) (drop n ws) # pieces (nat t) (drop m ws)"
      using True assms by (subst pieces.simps) (simp add: d)
    have "chunk_loop ws t (int n) cs =
        chunk_loop ws t (int m) (cs @ [join '' '' (py_slice ws (int n) (int m))])"
      using True by (subst chunk_loop.simps) (simp add: j Let_def)
    also have "\<dots> = Some ((cs @ [join '' '' (py_slice ws (int n) (int m))]) @
        map (join '' '') (pieces (nat t) (drop m ws)))"
      using less.hyps [OF m(2) m(1)] .
    finally show ?thesis
      using py_slice_step [OF True assms] by (simp add: j c)
  qed
qed

lemma split_loop_words:
  "\<forall>c \<in> set cur. \<not> is_space c \<Longrightarrow> w \<in> set (split_loop cur s) \<Longrightarrow>
   w \<noteq> [] \<and> (\<forall>c \<in> set w. \<not> is_space c)"
proof (induction s arbitrary: cur)
  case Nil
  then show ?case by (cases "cur = []") auto
next
  case (Cons c s)
  show ?case
  proof (cases "is_space c")
    case True
    with Cons.prems(2) have "w = rev cur \<and> cur \<noteq> [] \<or> w \<in> set (split_loop [] s)"
      by (cases "cur = []") simp_all
    then show ?thesis
    proof
      assume "w = rev cur \<and> cur \<noteq> []"
      with Cons.prems(1) show ?thesis by simp
    next
      assume "w \<in> set (split_loop [] s)"
      with Cons.IH [of "[]"] show ?thesis by simp
    qed
  next
    case False
    with Cons.prems(2) have "w \<in> set (split_loop (c # cur) s)" by simp
    moreover from False Cons.prems(1) have "\<forall>d \<in> set (c # cur). \<not> is_space d" by simp
    ultimately show ?thesis using Cons.IH [of "c # cur"] by blast
  qed
qed

lemma split_loop_append_word:
  "\<forall>c \<in> set w. \<not> is_space c \<Longrightarrow> split_loop cur (w @ s) = split_loop (rev w @ cur) s"
  by (induction w arbitrary: cur) simp_all

lemma split_join:
  "\<forall>w \<in> set ws. w \<noteq> [] \<and> (\<forall>c \<in> set w. \<not> is_space c) \<Longrightarrow>
   split_ws (join '' '' ws) = ws"
proof (induction ws)
  case Nil
  then show ?case by (simp add: split_ws_def)
next
  case (Cons w ws)
  then have w: "w \<noteq> []" "\<forall>c \<in> set w. \<not> is_space c" by simp_all
  have sp: "is_space CHR '' ''" by (simp add: is_space_def)
  show ?case
  proof (cases "ws = []")
    case True
    then show ?thesis
      using w split_loop_append_word [of w "[]" "[]"] by (simp add: split_ws_def)
  next
    case False
    have "split_ws (join '' '' (w # ws)) = split_loop (rev w) ('' '' @ join '' '' ws)"
      using False w(2) split_loop_append_word [of w "[]" "'' '' @ join '' '' ws"]
      by (simp add: split_ws_def join_Cons)
    also have "\<dots> = w # split_ws (join '' '' ws)"
      using w(1) sp by (simp add: split_ws_def)
    finally show ?thesis using Cons by simp
  qed
qed

lemma join_nonempty: "ws \<noteq> [] \<Longrightarrow> \<forall>w \<in> set ws. w \<noteq> [] \<Longrightarrow> join sep ws \<noteq> []"
  by (cases ws) (simp_all add: join_Cons)

lemma pieces_Nil: "pieces n [] = []"
  by (simp add: pieces.simps)

lemma concat_pieces: "0 < n \<Longrightarrow> concat (pieces n xs) = xs"
proof (induction n xs rule: pieces.induct)
  case (1 n xs)
  then show ?case by (subst pieces.simps) simp
qed

lemma pieces_piece:
  "p \<in> set (pieces n xs) \<Longrightarrow> p \<noteq> [] \<and> set p \<subseteq> set xs \<and> length p \<le> n"
proof (induction n xs rule: pieces.induct)
  case (1 n xs)
  show ?case
  proof (cases "xs = [] \<or> n = 0")
    case True
    with 1(2) show ?thesis by (simp add: pieces.simps)
  next
    case False
    with 1(2) have "p = take n xs \<or> p \<in> set (pieces n (drop n xs))"
      by (subst (asm) pieces.simps) simp
    then show ?thesis
    proof
      assume "p = take n xs"
      with False show ?thesis by (auto dest: in_set_takeD)
    next
      assume "p \<in> set (pieces n (drop n xs))"
      from 1(1) [OF False this] show ?thesis by (auto dest: in_set_dropD)
    qed
  qed
qed

lemma pieces_butlast: "p \<in> set (butlast (pieces n xs)) \<Longrightarrow> length p = n"
proof (induction n xs rule: pieces.induct)
  case (1 n xs)
  show ?case
  proof (cases "xs = [] \<or> n = 0")
    case True
    with 1(2) show ?thesis by (simp add: pieces.simps)
  next
    case False
    show ?thesis
    proof (cases "pieces n (drop n xs) = []")
      case True
      with 1(2) False show ?thesis by (subst (asm) pieces.simps) simp
    next
      case ne: False
      then have "drop n xs \<noteq> []" by (auto simp: pieces_Nil)
      then have len: "length (take n xs) = n" by simp
      from 1(2) False ne have "p = take n xs \<or> p \<in> set (butlast (pieces n (drop n xs)))"
        by (subst (asm) pieces.simps) simp
      then show ?thesis using len 1(1) [OF False] by blast
    qed
  qed
qed

lemma chunk_text_by_words_eq:
  "1 \<le> T \<Longrightarrow>
   chunk_text_by_words text T = Some (map (join '' '') (pieces (nat T) (split_ws text)))"
  using chunk_loop_total [of T 0 "split_ws text" "[]"]
  by (simp add: chunk_text_by_words_def)

lemma split_ws_words:
  "w \<in> set (split_ws s) \<Longrightarrow> w \<noteq> [] \<and> (\<forall>c \<in> set w. \<not> is_space c)"
  using split_loop_words [of "[]" w s] by (simp add: split_ws_def)

lemma split_join_piece:
  assumes "p \<in> set (pieces n (split_ws s))"
  shows "split_ws (join '' '' p) = p" and "join '' '' p \<noteq> []"
proof -
  from pieces_piece [OF assms] have ne: "p \<noteq> []" and sub: "set p \<subseteq> set (split_ws s)"
    by simp_all
  from sub have ok: "\<forall>w \<in> set p. w \<noteq> [] \<and> (\<forall>c \<in> set w. \<not> is_space c)"
    using split_ws_words by blast
  from split_join [OF ok] show "split_ws (join '' '' p) = p" .
  from ok have "\<forall>w \<in> set p. w \<noteq> []" by blast
  from join_nonempty [OF ne this] show "join '' '' p \<noteq> []" .
qed

lemma map_split_join_pieces:
  "map split_ws (map (join '' '') (pieces n (split_ws s))) = pieces n (split_ws s)"
  by (simp add: map_idI split_join_piece(1))

text \<open>
  C5. For every text and every target \<open>T \<ge> 1\<close> the chunker returns; every chunk but
  the last has exactly \<open>T\<close> words; every chunk has between one and \<open>T\<close> words;
  the chunks' words, concatenated in order, are the words of the text; no chunk is the
  empty string; a text with no words gives no chunks.
\<close>

theorem chunk_text_by_words_chunks:
  assumes "1 \<le> T"
  shows "\<exists>chunks. chunk_text_by_words text T = Some chunks \<and>
      (\<forall>c \<in> set (butlast chunks). length (split_ws c) = nat T) \<and>
      (\<forall>c \<in> set chunks. 1 \<le> length (split_ws c) \<and> length (split_ws c) \<le> nat T) \<and>
      concat (map split_ws chunks) = split_ws text \<and>
      (\<forall>c \<in> set chunks. c \<noteq> []) \<and>
      (split_ws text = [] \<longrightarrow> chunks = [])"
proof -
  let ?ps = "pieces (nat T) (split_ws text)"
  let ?chunks = "map (join '' '') ?ps"
  have T: "0 < nat T" using assms by simp
  have ms: "map split_ws ?chunks = ?ps" by (rule map_split_join_pieces)
  have 1: "chunk_text_by_words text T = Some ?chunks"
    using assms by (rule chunk_text_by_words_eq)
  have 2: "\<forall>c \<in> set (butlast ?chunks). length (split_ws c) = nat T"
  proof
    fix c assume "c \<in> set (butlast ?chunks)"
    then obtain p where p: "p \<in> set (butlast ?ps)" and c: "c = join '' '' p"
      by (auto simp: map_butlast [symmetric])
    from p have "p \<in> set ?ps" by (rule in_set_butlastD)
    then have "split_ws c = p" unfolding c by (rule split_join_piece(1))
    with pieces_butlast [OF p] show "length (split_ws c) = nat T" by simp
  qed
  have 3: "\<forall>c \<in> set ?chunks. 1 \<le> length (split_ws c) \<and> length (split_ws c) \<le> nat T"
  proof
    fix c assume "c \<in> set ?chunks"
    then obtain p where p: "p \<in> set ?ps" and c: "c = join '' '' p" by auto
    from p have "split_ws c = p" unfolding c by (rule split_join_piece(1))
    with pieces_piece [OF p] show "1 \<le> length (split_ws c) \<and> length (split_ws c) \<le> nat T"
      by (cases p) simp_all
  qed
  have 4: "concat (map split_ws ?chunks) = split_ws text"
    unfolding ms using T by (rule concat_pieces)
  have 5: "\<forall>c \<in> set ?chunks. c \<noteq> []"
    using split_join_piece(2) by auto
  have 6: "split_ws text = [] \<longrightarrow> ?chunks = []"
    by (simp add: pieces_Nil)
  from 1 2 3 4 5 6 show ?thesis by blast
qed

theorem chunk_text_by_words_chunks_witness:
  "chunk_text_by_words ''one two  three four five '' 2 =
     Some [''one two'', ''three four'', ''five''] \<and>
   concat (map split_ws [''one two'', ''three four'', ''five'']) =
     split_ws ''one two  three four five ''"
proof -
  have v: "chunk_text_by_words ''one two  three four five '' 2 =
     Some [''one two'', ''three four'', ''five'']"
    by code_simp
  have "(1::int) \<le> 2" by simp
  from chunk_text_by_words_chunks [OF this, of "''one two  three four five ''"] v
  show ?thesis by simp
qed

text \<open>
  C10 (as the code has it). For a target \<open>\<ge> 1\<close> the index grows in every iteration and
  the chunker returns. For a target \<open>\<le> 0\<close> the index never grows, and the chunker does
  not return when the text has at least one word; a text without words (empty or
  whitespace only) skips the loop and returns the empty list for every target.
\<close>

theorem chunk_text_by_words_terminates:
  "(1 \<le> target \<longrightarrow> (\<exists>chunks. chunk_text_by_words text target = Some chunks)) \<and>
   (1 \<le> target \<and> i < int (length ws) \<longrightarrow> i < next_index ws target i) \<and>
   (target \<le> 0 \<and> i < int (length ws) \<longrightarrow> next_index ws target i \<le> i) \<and>
   (target \<le> 0 \<and> split_ws text \<noteq> [] \<longrightarrow> chunk_text_by_words text target = None) \<and>
   (split_ws text = [] \<longrightarrow> chunk_text_by_words text target = Some [])"
proof (intro conjI impI)
  assume "1 \<le> target"
  then show "\<exists>chunks. chunk_text_by_words text target = Some chunks"
    by (simp add: chunk_text_by_words_eq)
next
  assume "1 \<le> target \<and> i < int (length ws)"
  then show "i < next_index ws target i" by (simp add: next_index_def)
next
  assume "target \<le> 0 \<and> i < int (length ws)"
  then show "next_index ws target i \<le> i" by (simp add: next_index_def)
next
  assume a: "target \<le> 0 \<and> split_ws text \<noteq> []"
  show "chunk_text_by_words text target = None"
  proof (cases "chunk_text_by_words text target")
    case None
    then show ?thesis .
  next
    case (Some r)
    then have "chunk_loop (split_ws text) target 0 [] = Some r"
      by (simp add: chunk_text_by_words_def)
    from chunk_loop_stuck [OF this] a show ?thesis by simp
  qed
next
  assume "split_ws text = []"
  then show "chunk_text_by_words text target = Some []"
    by (simp add: chunk_text_by_words_def chunk_loop.simps)
qed

theorem chunk_text_by_words_terminates_witness:
  "(\<exists>chunks. chunk_text_by_words ''one two three'' 2 = Some chunks) \<and>
   (0::int) < next_index [''one'', ''two'', ''three''] 2 0 \<and>
   next_index [''one'', ''two'', ''three''] (- 1) 1 \<le> 1 \<and>
   chunk_text_by_words ''one two three'' 0 = None \<and>
   chunk_text_by_words ''one two three'' (- 1) = None \<and>
   chunk_text_by_words [] 0 = Some []"
proof -
  have w: "split_ws ''one two three'' \<noteq> []" by code_simp
  have e: "split_ws [] = []" by (simp add: split_ws_def)
  show ?thesis
    using chunk_text_by_words_terminates [of 2 "''one two three''" 0 "[''one'', ''two'', ''three'']"]
      chunk_text_by_words_terminates [of 0 "''one two three''" 0 "[]"]
      chunk_text_by_words_terminates [of "- 1" "''one two three''" 1 "[''one'', ''two'', ''three'']"]
      chunk_text_by_words_terminates [of 0 "[]" 0 "[]"] w e
    by simp
qed

theorem chunk_text_by_words_blank_counterexample:
  "'' '' \<noteq> [] \<and> chunk_text_by_words '' '' 0 = Some []"
  by (simp add: chunk_text_by_words_def split_ws_def is_space_def chunk_loop.simps)

section \<open>Diagram normalisation\<close>

text \<open>
  \<open>class DiagramSpec\<close> and \<open>normalize_mermaid\<close> of \<open>process_pipeline.py\<close>.
  \<open>trim_fences\<close> is the expression \<open>mermaid.strip().strip("`").strip()\<close>;
  \<open>startswith\<close> is \<open>prefix\<close>, \<open>in\<close> is \<open>sublist\<close>, and the line break of the
  directive lines is the character 0x0A.
\<close>

record DiagramSpec =
  diagram_type :: string
  mermaid :: string

definition trim_fences :: "string \<Rightarrow> string" where
  "trim_fences raw = strip (strip_with (\<lambda>c. c = CHR ''`'') (strip raw))"

definition normalize_mermaid :: "string \<Rightarrow> string \<Rightarrow> DiagramSpec option" where
  "normalize_mermaid dtype raw =
     (if raw = [] \<or> strip raw = [] then None
      else
        let m = trim_fences raw;
            dt = lower dtype;
            m' =
              (if dt = ''mindmap'' \<and> \<not> prefix ''mindmap'' (lower m)
                 then ''mindmap'' @ CHR 0x0A # ''  '' @ m
               else if dt = ''flowchart'' \<and> \<not> sublist ''flowchart'' (lower m)
                 then ''flowchart TD'' @ CHR 0x0A # ''  '' @ m
               else if dt = ''hierarchy'' \<and> \<not> prefix ''graph'' (lower m)
                 then ''graph TD'' @ CHR 0x0A # ''  '' @ m
               else if dt = ''timeline'' \<and> \<not> sublist ''timeline'' (lower m)
                 then ''flowchart TD'' @ CHR 0x0A # ''  '' @ m
               else m)
        in Some \<lparr>diagram_type = dt, mermaid = m'\<rparr>)"

text \<open>The older copy in \<open>pipeline/diagrams.py\<close> compares \<open>diagram_type\<close> as it is
  given and stores it unchanged.\<close>

definition diagrams_normalize_mermaid :: "string \<Rightarrow> string \<Rightarrow> DiagramSpec option" where
  "diagrams_normalize_mermaid dtype raw =
     (if raw = [] \<or> strip raw = [] then None
      else
        let m = trim_fences raw;
            m' =
              (if dtype = ''mindmap'' \<and> \<not> prefix ''mindmap'' (lower m)
                 then ''mindmap'' @ CHR 0x0A # ''  '' @ m
               else if dtype = ''flowchart'' \<and> \<not> sublist ''flowchart'' (lower m)
                 then ''flowchart TD'' @ CHR 0x0A # ''  '' @ m
               else if dtype = ''hierarchy'' \<and> \<not> prefix ''graph'' (lower m)
                 then ''graph TD'' @ CHR 0x0A # ''  '' @ m
               else if dtype = ''timeline'' \<and> \<not> sublist ''timeline'' (lower m)
                 then ''flowchart TD'' @ CHR 0x0A # ''  '' @ m
               else m)
        in Some \<lparr>diagram_type = dtype, mermaid = m'\<rparr>)"

section \<open>Properties of diagram normalisation\<close>

lemma lower_directives:
  "lower ''mindmap'' = ''mindmap''"
  "lower ''flowchart'' = ''flowchart''"
  "lower ''hierarchy'' = ''hierarchy''"
  "lower ''timeline'' = ''timeline''"
  by code_simp+

lemma lower_prefix_append: "prefix p (lower d) \<Longrightarrow> prefix p (lower (d @ x))"
  by (simp add: lower_def)

lemma directive_prefixes:
  "prefix ''mindmap'' (lower ''mindmap'')"
  "prefix ''graph'' (lower ''graph TD'')"
  "prefix ''flowchart'' (lower ''flowchart TD'')"
  by code_simp+

lemma strip_Nil: "strip [] = []"
  by (simp add: strip_def strip_with_def)

lemma normalize_mermaid_blank: "strip raw = [] \<Longrightarrow> normalize_mermaid dt raw = None"
  by (simp add: normalize_mermaid_def)

lemma normalize_mermaid_mindmap:
  assumes "strip raw \<noteq> []"
  shows "normalize_mermaid ''mindmap'' raw =
     Some \<lparr>diagram_type = ''mindmap'',
       mermaid = (if prefix ''mindmap'' (lower (trim_fences raw)) then trim_fences raw
                  else ''mindmap'' @ CHR 0x0A # ''  '' @ trim_fences raw)\<rparr>"
  using assms by (auto simp: normalize_mermaid_def Let_def lower_directives strip_Nil)

lemma normalize_mermaid_flowchart:
  assumes "strip raw \<noteq> []"
  shows "normalize_mermaid ''flowchart'' raw =
     Some \<lparr>diagram_type = ''flowchart'',
       mermaid = (if sublist ''flowchart'' (lower (trim_fences raw)) then trim_fences raw
                  else ''flowchart TD'' @ CHR 0x0A # ''  '' @ trim_fences raw)\<rparr>"
  using assms by (auto simp: normalize_mermaid_def Let_def lower_directives strip_Nil)

lemma normalize_mermaid_hierarchy:
  assumes "strip raw \<noteq> []"
  shows "normalize_mermaid ''hierarchy'' raw =
     Some \<lparr>diagram_type = ''hierarchy'',
       mermaid = (if prefix ''graph'' (lower (trim_fences raw)) then trim_fences raw
                  else ''graph TD'' @ CHR 0x0A # ''  '' @ trim_fences raw)\<rparr>"
  using assms by (auto simp: normalize_mermaid_def Let_def lower_directives strip_Nil)

lemma normalize_mermaid_timeline:
  assumes "strip raw \<noteq> []"
  shows "normalize_mermaid ''timeline'' raw =
     Some \<lparr>diagram_type = ''timeline'',
       mermaid = (if sublist ''timeline'' (lower (trim_fences raw)) then trim_fences raw
                  else ''flowchart TD'' @ CHR 0x0A # ''  '' @ trim_fences raw)\<rparr>"
  using assms by (auto simp: normalize_mermaid_def Let_def lower_directives strip_Nil)

lemma diagrams_normalize_mermaid_same:
  "lower dt = dt \<Longrightarrow> diagrams_normalize_mermaid dt raw = normalize_mermaid dt raw"
  by (simp add: diagrams_normalize_mermaid_def normalize_mermaid_def Let_def)


text \<open>
  C6 (as the code has it). Blank text gives no DiagramSpec. Otherwise, with \<open>m\<close> the
  trimmed text: for mindmap the result is \<open>m\<close> when its lower-cased form starts with
  "mindmap" and the directive line plus \<open>m\<close> otherwise, so it always starts with "mindmap"
  up to case; for hierarchy the same with "graph" and the line "graph TD"; for flowchart
  the test is whether "flowchart" occurs anywhere in the lower-cased \<open>m\<close>, and the line
  "flowchart TD" is prepended only when it does not; for timeline the test is whether
  "timeline" occurs anywhere, and "flowchart TD" is prepended only when it does not. Both
  copies of the function agree on the four types.
\<close>

theorem normalize_mermaid_directive:
  "(strip raw = [] \<longrightarrow>
      normalize_mermaid dt raw = None \<and> diagrams_normalize_mermaid dt raw = None) \<and>
   (strip raw \<noteq> [] \<longrightarrow>
      (\<exists>t. normalize_mermaid ''mindmap'' raw = Some \<lparr>diagram_type = ''mindmap'', mermaid = t\<rparr> \<and>
         diagrams_normalize_mermaid ''mindmap'' raw = normalize_mermaid ''mindmap'' raw \<and>
         t = (if prefix ''mindmap'' (lower (trim_fences raw)) then trim_fences raw
              else ''mindmap'' @ CHR 0x0A # ''  '' @ trim_fences raw) \<and>
         prefix ''mindmap'' (lower t)) \<and>
      (\<exists>t. normalize_mermaid ''hierarchy'' raw = Some \<lparr>diagram_type = ''hierarchy'', mermaid = t\<rparr> \<and>
         diagrams_normalize_mermaid ''hierarchy'' raw = normalize_mermaid ''hierarchy'' raw \<and>
         t = (if prefix ''graph'' (lower (trim_fences raw)) then trim_fences raw
              else ''graph TD'' @ CHR 0x0A # ''  '' @ trim_fences raw) \<and>
         prefix ''graph'' (lower t)) \<and>
      (\<exists>t. normalize_mermaid ''flowchart'' raw = Some \<lparr>diagram_type = ''flowchart'', mermaid = t\<rparr> \<and>
         diagrams_normalize_mermaid ''flowchart'' raw = normalize_mermaid ''flowchart'' raw \<and>
         t = (if sublist ''flowchart'' (lower (trim_fences raw)) then trim_fences raw
              else ''flowchart TD'' @ CHR 0x0A # ''  '' @ trim_fences raw) \<and>
         sublist ''flowchart'' (lower t)) \<and>
      (\<exists>t. normalize_mermaid ''timeline'' raw = Some \<lparr>diagram_type = ''timeline'', mermaid = t\<rparr> \<and>
         diagrams_normalize_mermaid ''timeline'' raw = normalize_mermaid ''timeline'' raw \<and>
         t = (if sublist ''timeline'' (lower (trim_fences raw)) then trim_fences raw
              else ''flowchart TD'' @ CHR 0x0A # ''  '' @ trim_fences raw) \<and>
         (sublist ''timeline'' (lower t) \<or> prefix ''flowchart TD'' t)))"
proof (intro conjI impI)
  assume "strip raw = []"
  then show "normalize_mermaid dt raw = None"
    by (rule normalize_mermaid_blank)
next
  assume "strip raw = []"
  then show "diagrams_normalize_mermaid dt raw = None"
    by (simp add: diagrams_normalize_mermaid_def)
next
  assume ne: "strip raw \<noteq> []"
  show "\<exists>t. normalize_mermaid ''mindmap'' raw = Some \<lparr>diagram_type = ''mindmap'', mermaid = t\<rparr> \<and>
         diagrams_normalize_mermaid ''mindmap'' raw = normalize_mermaid ''mindmap'' raw \<and>
         t = (if prefix ''mindmap'' (lower (trim_fences raw)) then trim_fences raw
              else ''mindmap'' @ CHR 0x0A # ''  '' @ trim_fences raw) \<and>
         prefix ''mindmap'' (lower t)"
    using normalize_mermaid_mindmap [OF ne]
      lower_prefix_append [OF directive_prefixes(1)]
    by (simp add: diagrams_normalize_mermaid_same lower_directives(1))
next
  assume ne: "strip raw \<noteq> []"
  show "\<exists>t. normalize_mermaid ''hierarchy'' raw = Some \<lparr>diagram_type = ''hierarchy'', mermaid = t\<rparr> \<and>
         diagrams_normalize_mermaid ''hierarchy'' raw = normalize_mermaid ''hierarchy'' raw \<and>
         t = (if prefix ''graph'' (lower (trim_fences raw)) then trim_fences raw
              else ''graph TD'' @ CHR 0x0A # ''  '' @ trim_fences raw) \<and>
         prefix ''graph'' (lower t)"
    using normalize_mermaid_hierarchy [OF ne]
      lower_prefix_append [OF directive_prefixes(2)]
    by (simp add: diagrams_normalize_mermaid_same lower_directives(3))
next
  assume ne: "strip raw \<noteq> []"
  have p: "sublist ''flowchart'' (lower (''flowchart TD'' @ x))" for x
    by (rule prefix_imp_sublist) (rule lower_prefix_append [OF directive_prefixes(3)])
  show "\<exists>t. normalize_mermaid ''flowchart'' raw = Some \<lparr>diagram_type = ''flowchart'', mermaid = t\<rparr> \<and>
         diagrams_normalize_mermaid ''flowchart'' raw = normalize_mermaid ''flowchart'' raw \<and>
         t = (if sublist ''flowchart'' (lower (trim_fences raw)) then trim_fences raw
              else ''flowchart TD'' @ CHR 0x0A # ''  '' @ trim_fences raw) \<and>
         sublist ''flowchart'' (lower t)"
    using normalize_mermaid_flowchart [OF ne] p
    by (simp add: diagrams_normalize_mermaid_same lower_directives(2))
next
  assume ne: "strip raw \<noteq> []"
  show "\<exists>t. normalize_mermaid ''timeline'' raw = Some \<lparr>diagram_type = ''timeline'', mermaid = t\<rparr> \<and>
         diagrams_normalize_mermaid ''timeline'' raw = normalize_mermaid ''timeline'' raw \<and>
         t = (if sublist ''timeline'' (lower (trim_fences raw)) then trim_fences raw
              else ''flowchart TD'' @ CHR 0x0A # ''  '' @ trim_fences raw) \<and>
         (sublist ''timeline'' (lower t) \<or> prefix ''flowchart TD'' t)"
    using normalize_mermaid_timeline [OF ne]
    by (simp add: diagrams_normalize_mermaid_same lower_directives(4))
qed

theorem normalize_mermaid_directive_witness:
  "normalize_mermaid ''mindmap'' ''A-->B'' =
     Some \<lparr>diagram_type = ''mindmap'', mermaid = ''mindmap'' @ CHR 0x0A # ''  A-->B''\<rparr> \<and>
   normalize_mermaid ''timeline'' ''A-->B'' =
     Some \<lparr>diagram_type = ''timeline'', mermaid = ''flowchart TD'' @ CHR 0x0A # ''  A-->B''\<rparr> \<and>
   normalize_mermaid ''flowchart'' ''  flowchart LR; A-->B '' =
     Some \<lparr>diagram_type = ''flowchart'', mermaid = ''flowchart LR; A-->B''\<rparr> \<and>
   normalize_mermaid ''hierarchy'' ''   '' = None"
proof -
  have a: "strip ''A-->B'' \<noteq> []" "trim_fences ''A-->B'' = ''A-->B''"
    "\<not> prefix ''mindmap'' (lower ''A-->B'')" "\<not> sublist ''timeline'' (lower ''A-->B'')"
    by code_simp+
  have b: "strip ''  flowchart LR; A-->B '' \<noteq> []"
    "trim_fences ''  flowchart LR; A-->B '' = ''flowchart LR; A-->B''"
    "sublist ''flowchart'' (lower ''flowchart LR; A-->B'')"
    by code_simp+
  have c: "strip ''   '' = []" by code_simp
  show ?thesis
    using normalize_mermaid_directive [of "''A-->B''" "''mindmap''"]
      normalize_mermaid_directive [of "''  flowchart LR; A-->B ''" "''flowchart''"]
      normalize_mermaid_directive [of "''   ''" "''hierarchy''"] a b c
    by simp
qed

theorem normalize_mermaid_directive_counterexample:
  "normalize_mermaid ''timeline'' ''timeline'' =
     Some \<lparr>diagram_type = ''timeline'', mermaid = ''timeline''\<rparr> \<and>
   \<not> prefix ''flowchart TD'' ''timeline'' \<and>
   normalize_mermaid ''flowchart'' ''A-->B[flowchart]'' =
     Some \<lparr>diagram_type = ''flowchart'', mermaid = ''A-->B[flowchart]''\<rparr> \<and>
   \<not> prefix ''flowchart'' (lower ''A-->B[flowchart]'')"
  by code_simp

section \<open>Python values and \<open>json.loads\<close>\<close>

text \<open>
  The values \<open>json.loads\<close> builds and the pipeline passes on: \<open>None\<close>, booleans,
  integers, floats, strings, lists and dictionaries. A float keeps the text of its
  literal (no rounding is modelled; \<open>NaN\<close>, \<open>Infinity\<close> and \<open>-Infinity\<close> are floats).
  A dictionary is the list of its items in insertion order, with distinct keys.
\<close>

datatype pyval =
    VNone
  | VBool bool
  | VInt int
  | VFloat string
  | VStr string
  | VList "pyval list"
  | VDict "(string \<times> pyval) list"

text \<open>The exceptions of the modelled code.\<close>

datatype py_error =
  JSONDecodeError | AttributeError | TypeError | NameError | RequestException

text \<open>\<open>d[k] = v\<close>: a key already present keeps its place and takes the new value.\<close>

fun dict_set :: "(string \<times> pyval) list \<Rightarrow> string \<Rightarrow> pyval \<Rightarrow> (string \<times> pyval) list" where
  "dict_set [] k v = [(k, v)]"
| "dict_set ((k', v') # d) k v = (if k' = k then (k, v) # d else (k', v') # dict_set d k v)"

text \<open>Truth value testing (\<open>if x:\<close>, \<open>x or y\<close>). A float is false when it is a zero:
  its literal has no digit other than 0 before the exponent.\<close>

definition float_is_zero :: "string \<Rightarrow> bool" where
  "float_is_zero lit =
     (let mant = takeWhile (\<lambda>c. c \<noteq> CHR ''e'' \<and> c \<noteq> CHR ''E'') lit
      in (\<exists>c \<in> set mant. c = CHR ''0'') \<and>
         (\<forall>c \<in> set mant. c = CHR ''0'' \<or> c = CHR ''.'' \<or> c = CHR ''-''))"

fun truthy :: "pyval \<Rightarrow> bool" where
  "truthy VNone = False"
| "truthy (VBool b) = b"
| "truthy (VInt n) = (n \<noteq> 0)"
| "truthy (VFloat lit) = (\<not> float_is_zero lit)"
| "truthy (VStr s) = (s \<noteq> [])"
| "truthy (VList xs) = (xs \<noteq> [])"
| "truthy (VDict d) = (d \<noteq> [])"

subsection \<open>Tokens\<close>

text \<open>
  \<open>json.loads\<close> is read in two passes that are both single sweeps: the text becomes
  tokens, the tokens become a value. It accepts the JSON grammar with Python's
  extensions (\<open>NaN\<close>, \<open>Infinity\<close>, \<open>-Infinity\<close>), skips only space, TAB, LF and CR,
  and refuses control characters inside strings. Python's limits on nesting depth and
  on the digits of an integer are not modelled.
\<close>

datatype token = TLBrace | TRBrace | TLBrack | TRBrack | TComma | TColon | TVal pyval

datatype lexmode =
    LNormal
  | LStr string
  | LEsc string
  | LUni string string
  | LNum string
  | LWord string

definition is_digit :: "char \<Rightarrow> bool" where
  "is_digit c = (let n = (of_char c :: nat) in 48 \<le> n \<and> n \<le> 57)"

definition is_letter :: "char \<Rightarrow> bool" where
  "is_letter c = (let n = (of_char c :: nat) in (65 \<le> n \<and> n \<le> 90) \<or> (97 \<le> n \<and> n \<le> 122))"

definition is_hex :: "char \<Rightarrow> bool" where
  "is_hex c =
     (let n = (of_char c :: nat)
      in (48 \<le> n \<and> n \<le> 57) \<or> (65 \<le> n \<and> n \<le> 70) \<or> (97 \<le> n \<and> n \<le> 102))"

definition hex_digit :: "char \<Rightarrow> nat" where
  "hex_digit c =
     (let n = (of_char c :: nat)
      in if n \<le> 57 then n - 48 else if n \<le> 70 then n - 55 else n - 87)"

definition hex_value :: "string \<Rightarrow> nat" where
  "hex_value s = foldl (\<lambda>n c. 16 * n + hex_digit c) 0 s"

definition digits_value :: "string \<Rightarrow> int" where
  "digits_value s = foldl (\<lambda>n c. 10 * n + (int (of_char c) - 48)) 0 s"

definition is_number_char :: "char \<Rightarrow> bool" where
  "is_number_char c =
     (is_digit c \<or> c = CHR ''.'' \<or> c = CHR ''e'' \<or> c = CHR ''E'' \<or> c = CHR ''+'' \<or> c = CHR ''-'')"

text \<open>The number grammar \<open>-?(0|[1-9][0-9]*)(\.[0-9]+)?([eE][-+]?[0-9]+)?\<close>: an integer
  without fraction and exponent, a float otherwise.\<close>

definition number_token :: "string \<Rightarrow> token option" where
  "number_token lit =
     (let neg = (lit \<noteq> [] \<and> hd lit = CHR ''-'');
          r0 = (if neg then tl lit else lit);
          ip = takeWhile is_digit r0;
          r1 = dropWhile is_digit r0;
          has_frac = (r1 \<noteq> [] \<and> hd r1 = CHR ''.'');
          fd = (if has_frac then takeWhile is_digit (tl r1) else []);
          r2 = (if has_frac then dropWhile is_digit (tl r1) else r1);
          has_exp = (r2 \<noteq> [] \<and> (hd r2 = CHR ''e'' \<or> hd r2 = CHR ''E''));
          r3 = (if has_exp then tl r2 else r2);
          r4 = (if has_exp \<and> r3 \<noteq> [] \<and> (hd r3 = CHR ''+'' \<or> hd r3 = CHR ''-'') then tl r3 else r3);
          ed = (if has_exp then takeWhile is_digit r4 else []);
          r5 = (if has_exp then dropWhile is_digit r4 else r4)
      in if ip = [] \<or> (length ip > 1 \<and> hd ip = CHR ''0'') then None
         else if has_frac \<and> fd = [] then None
         else if has_exp \<and> ed = [] then None
         else if r5 \<noteq> [] then None
         else if has_frac \<or> has_exp then Some (TVal (VFloat lit))
         else Some (TVal (VInt (if neg then - digits_value ip else digits_value ip))))"

definition word_token :: "string \<Rightarrow> token option" where
  "word_token w =
     (if w = ''true'' then Some (TVal (VBool True))
      else if w = ''false'' then Some (TVal (VBool False))
      else if w = ''null'' then Some (TVal VNone)
      else if w = ''NaN'' \<or> w = ''Infinity'' \<or> w = ''-Infinity'' then Some (TVal (VFloat w))
      else None)"

text \<open>One character outside a string, number or word.\<close>

definition normal_step :: "char \<Rightarrow> (token list \<times> lexmode) option" where
  "normal_step c =
     (if c = CHR '' '' \<or> c = CHR 0x09 \<or> c = CHR 0x0A \<or> c = CHR 0x0D then Some ([], LNormal)
      else if c = CHR ''{'' then Some ([TLBrace], LNormal)
      else if c = CHR ''}'' then Some ([TRBrace], LNormal)
      else if c = CHR ''['' then Some ([TLBrack], LNormal)
      else if c = CHR '']'' then Some ([TRBrack], LNormal)
      else if c = CHR '','' then Some ([TComma], LNormal)
      else if c = CHR '':'' then Some ([TColon], LNormal)
      else if c = CHR 0x22 then Some ([], LStr [])
      else if c = CHR ''-'' \<or> is_digit c then Some ([], LNum [c])
      else if is_letter c then Some ([], LWord [c])
      else None)"

definition after_token :: "token option \<Rightarrow> char \<Rightarrow> (token list \<times> lexmode) option" where
  "after_token t c =
     (case t of
        None \<Rightarrow> None
      | Some tok \<Rightarrow>
          (case normal_step c of
             None \<Rightarrow> None
           | Some (ts, m) \<Rightarrow> Some (tok # ts, m)))"

text \<open>The escapes of a string. A \<open>\uXXXX\<close> escape of a code point below 256 is that
  character; a larger code point has no character in this model and stays in the text as
  its six-character escape.\<close>

definition escape_char :: "char \<Rightarrow> char option" where
  "escape_char c =
     (if c = CHR 0x22 \<or> c = CHR 0x5C \<or> c = CHR ''/'' then Some c
      else if c = CHR ''b'' then Some (CHR 0x08)
      else if c = CHR ''f'' then Some (CHR 0x0C)
      else if c = CHR ''n'' then Some (CHR 0x0A)
      else if c = CHR ''r'' then Some (CHR 0x0D)
      else if c = CHR ''t'' then Some (CHR 0x09)
      else None)"

definition unicode_escape :: "string \<Rightarrow> string" where
  "unicode_escape hex =
     (if hex_value hex < 256 then [char_of (hex_value hex)] else CHR 0x5C # CHR ''u'' # hex)"

fun lex_step :: "lexmode \<Rightarrow> char \<Rightarrow> (token list \<times> lexmode) option" where
  "lex_step LNormal c = normal_step c"
| "lex_step (LStr acc) c =
     (if c = CHR 0x22 then Some ([TVal (VStr acc)], LNormal)
      else if c = CHR 0x5C then Some ([], LEsc acc)
      else if (of_char c :: nat) < 32 then None
      else Some ([], LStr (acc @ [c])))"
| "lex_step (LEsc acc) c =
     (if c = CHR ''u'' then Some ([], LUni acc [])
      else (case escape_char c of
              None \<Rightarrow> None
            | Some e \<Rightarrow> Some ([], LStr (acc @ [e]))))"
| "lex_step (LUni acc hex) c =
     (if \<not> is_hex c then None
      else if length hex = 3 then Some ([], LStr (acc @ unicode_escape (hex @ [c])))
      else Some ([], LUni acc (hex @ [c])))"
| "lex_step (LNum acc) c =
     (if is_number_char c then Some ([], LNum (acc @ [c]))
      else if acc = ''-'' \<and> c = CHR ''I'' then Some ([], LWord ''-I'')
      else after_token (number_token acc) c)"
| "lex_step (LWord acc) c =
     (if is_letter c then Some ([], LWord (acc @ [c]))
      else after_token (word_token acc) c)"

fun lex_loop :: "lexmode \<Rightarrow> string \<Rightarrow> token list option" where
  "lex_loop LNormal [] = Some []"
| "lex_loop (LNum acc) [] = map_option (\<lambda>t. [t]) (number_token acc)"
| "lex_loop (LWord acc) [] = map_option (\<lambda>t. [t]) (word_token acc)"
| "lex_loop m [] = None"
| "lex_loop m (c # cs) =
     (case lex_step m c of
        None \<Rightarrow> None
      | Some (ts, m') \<Rightarrow> map_option (\<lambda>rest. ts @ rest) (lex_loop m' cs))"

subsection \<open>From tokens to a value\<close>

text \<open>
  The open containers are a stack: an array with its elements so far (latest first), an
  object with its items so far, or an object whose next key is read and waits for its
  value. \<open>expect\<close> says which tokens may come next.
\<close>

datatype ctx =
    CArr "pyval list"
  | CObj "(string \<times> pyval) list"
  | CObjKey "(string \<times> pyval) list" string

datatype expect =
    EValue
  | EValueOrEnd
  | EKeyOrEnd
  | EKey
  | EColon
  | ECommaOrEnd
  | EDone pyval

type_synonym parse_state = "expect \<times> ctx list"

text \<open>A finished value goes to the container on top of the stack, or is the result.\<close>

fun push_value :: "pyval \<Rightarrow> ctx list \<Rightarrow> parse_state option" where
  "push_value v [] = Some (EDone v, [])"
| "push_value v (CArr items # st) = Some (ECommaOrEnd, CArr (v # items) # st)"
| "push_value v (CObjKey d k # st) = Some (ECommaOrEnd, CObj (dict_set d k v) # st)"
| "push_value v (CObj d # st) = None"

fun start_value :: "token \<Rightarrow> ctx list \<Rightarrow> parse_state option" where
  "start_value (TVal v) st = push_value v st"
| "start_value TLBrack st = Some (EValueOrEnd, CArr [] # st)"
| "start_value TLBrace st = Some (EKeyOrEnd, CObj [] # st)"
| "start_value t st = None"

fun start_key :: "token \<Rightarrow> ctx list \<Rightarrow> parse_state option" where
  "start_key (TVal (VStr k)) (CObj d # st) = Some (EColon, CObjKey d k # st)"
| "start_key t st = None"

fun close_container :: "token \<Rightarrow> ctx list \<Rightarrow> parse_state option" where
  "close_container TRBrack (CArr items # st) = push_value (VList (rev items)) st"
| "close_container TRBrace (CObj d # st) = push_value (VDict d) st"
| "close_container t st = None"

fun parse_step :: "parse_state \<Rightarrow> token \<Rightarrow> parse_state option" where
  "parse_step (EValue, st) t = start_value t st"
| "parse_step (EValueOrEnd, st) t =
     (if t = TRBrack then close_container t st else start_value t st)"
| "parse_step (EKeyOrEnd, st) t =
     (if t = TRBrace then close_container t st else start_key t st)"
| "parse_step (EKey, st) t = start_key t st"
| "parse_step (EColon, st) t = (if t = TColon then Some (EValue, st) else None)"
| "parse_step (ECommaOrEnd, st) t =
     (if t = TComma then
        (case st of
           CArr items # r \<Rightarrow> Some (EValue, st)
         | CObj d # r \<Rightarrow> Some (EKey, st)
         | _ \<Rightarrow> None)
      else close_container t st)"
| "parse_step (EDone v, st) t = None"

fun parse_loop :: "parse_state \<Rightarrow> token list \<Rightarrow> pyval option" where
  "parse_loop (EDone v, st) [] = Some v"
| "parse_loop (e, st) [] = None"
| "parse_loop ps (t # ts) =
     (case parse_step ps t of
        None \<Rightarrow> None
      | Some ps' \<Rightarrow> parse_loop ps' ts)"

definition json_loads :: "string \<Rightarrow> py_error + pyval" where
  "json_loads s =
     (case lex_loop LNormal s of
        None \<Rightarrow> Inl JSONDecodeError
      | Some ts \<Rightarrow>
          (case parse_loop (EValue, []) ts of
             None \<Rightarrow> Inl JSONDecodeError
           | Some v \<Rightarrow> Inr v))"

section \<open>The extractor\<close>

text \<open>
  \<open>re.search(r"```(?:json)?\s*(\{.*?\})\s*```", s, re.DOTALL)\<close>, group 1. A match
  that starts at a fence skips an optional "json" and all whitespace, needs an opening
  brace there, and ends at the first closing brace that is followed, after whitespace
  only, by a fence: \<open>.*?\<close> is lazy, and a whitespace run can only be left at its end,
  since the next character of the pattern is no whitespace. The search takes the
  leftmost fence that has a match.
\<close>

fun lazy_body :: "string \<Rightarrow> string \<Rightarrow> string option" where
  "lazy_body acc [] = None"
| "lazy_body acc (c # cs) =
     (if c = CHR ''}'' \<and> prefix ''```'' (dropWhile is_space cs) then Some (acc @ [c])
      else lazy_body (acc @ [c]) cs)"

definition fence_at :: "string \<Rightarrow> string option" where
  "fence_at s =
     (if prefix ''```'' s then
        let r1 = drop 3 s;
            r2 = (if prefix ''json'' r1 then drop 4 r1 else r1);
            r3 = dropWhile is_space r2
        in (case r3 of
              [] \<Rightarrow> None
            | c # cs \<Rightarrow> if c = CHR ''{'' then lazy_body [c] cs else None)
      else None)"

fun fenced_object :: "string \<Rightarrow> string option" where
  "fenced_object [] = None"
| "fenced_object (c # cs) =
     (case fence_at (c # cs) of
        Some g \<Rightarrow> Some g
      | None \<Rightarrow> fenced_object cs)"

text \<open>\<open>s.replace(pat, "")\<close> for a non-empty \<open>pat\<close>: the occurrences are removed from
  left to right, without overlap. \<open>skip\<close> counts the characters of an occurrence that are
  still to be dropped.\<close>

fun remove_loop :: "nat \<Rightarrow> string \<Rightarrow> string \<Rightarrow> string" where
  "remove_loop skip pat [] = []"
| "remove_loop skip pat (c # cs) =
     (if 0 < skip then remove_loop (skip - 1) pat cs
      else if prefix pat (c # cs) then remove_loop (length pat - 1) pat cs
      else c # remove_loop 0 pat cs)"

definition remove_all :: "string \<Rightarrow> string \<Rightarrow> string" where
  "remove_all pat s = remove_loop 0 pat s"

text \<open>\<open>s.find(c)\<close> and \<open>s.rfind(c)\<close> for one character: the index, or -1.\<close>

definition find_char :: "char \<Rightarrow> string \<Rightarrow> int" where
  "find_char c s =
     (if c \<in> set s then int (length (takeWhile (\<lambda>x. x \<noteq> c) s)) else - 1)"

definition rfind_char :: "char \<Rightarrow> string \<Rightarrow> int" where
  "rfind_char c s =
     (if c \<in> set s then int (length s) - 1 - int (length (takeWhile (\<lambda>x. x \<noteq> c) (rev s)))
      else - 1)"

text \<open>\<open>re.sub(r',\s*([\]}])', r'\1', candidate)\<close>: a comma, the whitespace after it
  and a closing bracket or brace become the bracket or brace alone. \<open>skip\<close> counts the
  whitespace of a match that is still to be dropped.\<close>

fun sub_loop :: "nat \<Rightarrow> string \<Rightarrow> string" where
  "sub_loop skip [] = []"
| "sub_loop skip (c # cs) =
     (if 0 < skip then sub_loop (skip - 1) cs
      else if c = CHR '','' \<and>
           (case dropWhile is_space cs of
              [] \<Rightarrow> False
            | d # ds \<Rightarrow> d = CHR '']'' \<or> d = CHR ''}'')
        then sub_loop (length (takeWhile is_space cs)) cs
      else c # sub_loop 0 cs)"

definition remove_trailing_commas :: "string \<Rightarrow> string" where
  "remove_trailing_commas candidate = sub_loop 0 candidate"

text \<open>Step 1 of \<open>safe_parse_json\<close>: the text the brace search runs on.\<close>

definition unfence :: "string \<Rightarrow> string" where
  "unfence s =
     (if sublist ''```'' s then
        (case fenced_object s of
           Some g \<Rightarrow> g
         | None \<Rightarrow> strip (remove_all ''```'' (remove_all ''```json'' s)))
      else s)"

text \<open>
  \<open>safe_parse_json\<close> of \<open>process_pipeline.py\<close>. \<open>Inl\<close> is an exception that leaves
  the function, \<open>Inr VNone\<close> is the return value \<open>None\<close>. Both \<open>except Exception\<close>
  handlers are the \<open>Inl\<close> branches of the two \<open>json.loads\<close> calls.
\<close>

definition safe_parse_json :: "string \<Rightarrow> py_error + pyval" where
  "safe_parse_json s0 =
     (if s0 = [] then Inr VNone
      else
        let s = unfence s0;
            start = find_char CHR ''{'' s;
            end_ix = rfind_char CHR ''}'' s
        in if start = - 1 \<or> end_ix = - 1 \<or> end_ix \<le> start then Inr VNone
           else
             let candidate = py_slice s start (end_ix + 1)
             in (case json_loads candidate of
                   Inr v \<Rightarrow> Inr v
                 | Inl e \<Rightarrow>
                     (case json_loads (remove_trailing_commas candidate) of
                        Inr v \<Rightarrow> Inr v
                      | Inl e' \<Rightarrow> Inr VNone)))"

text \<open>\<open>safe_parse_json\<close> of \<open>pipeline/llm.py\<close>: the whole text first, then the span
  from the first opening to the last closing brace.\<close>

definition llm_safe_parse_json :: "string \<Rightarrow> py_error + pyval" where
  "llm_safe_parse_json s =
     (case json_loads s of
        Inr v \<Rightarrow> Inr v
      | Inl e \<Rightarrow>
          let start = find_char CHR ''{'' s;
              end_ix = rfind_char CHR ''}'' s
          in if start \<noteq> - 1 \<and> end_ix \<noteq> - 1 then
               (case json_loads (py_slice s start (end_ix + 1)) of
                  Inr v \<Rightarrow> Inr v
                | Inl e' \<Rightarrow> Inr VNone)
             else Inr VNone)"

section \<open>Properties of the extractor\<close>

text \<open>
  C2. The text \<open>{"a":[1,2,],}\<close> is its own brace-delimited candidate; \<open>json.loads\<close>
  refuses it; the repair removes the two commas that stand before a closing bracket or
  brace; the repaired text parses, and the extractor returns the object with the one key
  \<open>a\<close> and the list of 1 and 2.
\<close>

theorem safe_parse_json_trailing_commas:
  \<open>safe_parse_json ''{"a":[1,2,],}'' = Inr (VDict [(''a'', VList [VInt 1, VInt 2])]) \<and>
   json_loads ''{"a":[1,2,],}'' = Inl JSONDecodeError \<and>
   remove_trailing_commas ''{"a":[1,2,],}'' = ''{"a":[1,2]}'' \<and>
   json_loads ''{"a":[1,2]}'' = Inr (VDict [(''a'', VList [VInt 1, VInt 2])])\<close>
  by code_simp

lemma find_char_absent: "c \<notin> set s \<Longrightarrow> find_char c s = - 1"
  by (simp add: find_char_def)

lemma rfind_char_absent: "c \<notin> set s \<Longrightarrow> rfind_char c s = - 1"
  by (simp add: rfind_char_def)

lemma safe_parse_json_returns: "\<exists>v. safe_parse_json s = Inr v"
  by (simp add: safe_parse_json_def Let_def split: sum.splits)

lemma llm_safe_parse_json_returns: "\<exists>v. llm_safe_parse_json s = Inr v"
  by (simp add: llm_safe_parse_json_def Let_def split: sum.splits)

lemma unfence_plain: "\<not> sublist ''```'' s \<Longrightarrow> unfence s = s"
  by (simp add: unfence_def)

lemma safe_parse_json_no_brace:
  "CHR ''{'' \<notin> set (unfence s) \<or> CHR ''}'' \<notin> set (unfence s) \<Longrightarrow>
   safe_parse_json s = Inr VNone"
  by (auto simp: safe_parse_json_def Let_def find_char_absent rfind_char_absent)

text \<open>
  C9. Both extractors return a value for every text and never leave by an exception.
  The extractor of \<open>process_pipeline.py\<close> returns \<open>None\<close> whenever the text it
  searches (the text after fence handling; the text itself when it has no fence) lacks
  an opening or a closing brace. The older extractor of \<open>pipeline/llm.py\<close>, which has no
  fence handling, then returns what \<open>json.loads\<close> makes of the whole text, and
  \<open>None\<close> when that fails.
\<close>

theorem safe_parse_json_total:
  "(\<exists>v. safe_parse_json s = Inr v) \<and>
   (\<exists>v. llm_safe_parse_json s = Inr v) \<and>
   (CHR ''{'' \<notin> set (unfence s) \<or> CHR ''}'' \<notin> set (unfence s) \<longrightarrow>
      safe_parse_json s = Inr VNone) \<and>
   (\<not> sublist ''```'' s \<and> (CHR ''{'' \<notin> set s \<or> CHR ''}'' \<notin> set s) \<longrightarrow>
      safe_parse_json s = Inr VNone) \<and>
   (CHR ''{'' \<notin> set s \<or> CHR ''}'' \<notin> set s \<longrightarrow>
      llm_safe_parse_json s =
        (case json_loads s of Inr v \<Rightarrow> Inr v | Inl e \<Rightarrow> Inr VNone))"
proof (intro conjI impI)
  show "\<exists>v. safe_parse_json s = Inr v" by (rule safe_parse_json_returns)
  show "\<exists>v. llm_safe_parse_json s = Inr v" by (rule llm_safe_parse_json_returns)
next
  assume "CHR ''{'' \<notin> set (unfence s) \<or> CHR ''}'' \<notin> set (unfence s)"
  then show "safe_parse_json s = Inr VNone" by (rule safe_parse_json_no_brace)
next
  assume "\<not> sublist ''```'' s \<and> (CHR ''{'' \<notin> set s \<or> CHR ''}'' \<notin> set s)"
  then show "safe_parse_json s = Inr VNone"
    using safe_parse_json_no_brace [of s] by (simp add: unfence_plain)
next
  assume "CHR ''{'' \<notin> set s \<or> CHR ''}'' \<notin> set s"
  then show "llm_safe_parse_json s =
        (case json_loads s of Inr v \<Rightarrow> Inr v | Inl e \<Rightarrow> Inr VNone)"
    by (auto simp: llm_safe_parse_json_def Let_def find_char_absent rfind_char_absent
        split: sum.splits)
qed

theorem safe_parse_json_total_witness:
  "safe_parse_json ''no braces at all'' = Inr VNone \<and>
   safe_parse_json ''```json [1, 2] ```'' = Inr VNone \<and>
   llm_safe_parse_json ''no braces at all'' = Inr VNone"
proof -
  have a: "CHR ''{'' \<notin> set ''no braces at all''" "\<not> sublist ''```'' ''no braces at all''"
    "json_loads ''no braces at all'' = Inl JSONDecodeError"
    by code_simp+
  have b: "CHR ''{'' \<notin> set (unfence ''```json [1, 2] ```'')"
    by code_simp
  show ?thesis
    using safe_parse_json_total [of "''no braces at all''"]
      safe_parse_json_total [of "''```json [1, 2] ```''"] a b
    by simp
qed

section \<open>The generation client\<close>

text \<open>
  \<open>call_local_llm\<close> of \<open>process_pipeline.py\<close>. The answer of the service to one
  request is \<open>Inl\<close> when \<open>requests.post\<close> or \<open>raise_for_status\<close> raises (timeout,
  connection error, non-success status) and otherwise the lines of the streamed body.
  A line that does not decode or parse is skipped. Everything else that raises inside
  the outer \<open>try\<close> ends in \<open>return None\<close>: \<open>"response" in obj\<close> on a number,
  \<open>obj["response"]\<close> on a list or a string, and \<open>full_text += v\<close> for a \<open>v\<close> that
  is no string.

  After the stream is read the function runs \<open>time.sleep(RATE_LIMIT_SECONDS)\<close>, still
  inside the outer \<open>try\<close>. \<open>process_pipeline.py\<close> binds no global of that name: the
  value exists only as the property \<open>Config.RATE_LIMIT_SECONDS\<close> (the modules
  \<open>pipeline/llm.py\<close>, \<open>slide.py\<close> and \<open>generate_slide.py\<close> bind it at module
  level). Evaluating the argument raises \<open>NameError\<close>, which \<open>except Exception\<close>
  turns into \<open>return None\<close>, so the final \<open>return\<close> of the text is never reached.
\<close>

fun has_response :: "pyval \<Rightarrow> py_error + bool" where
  "has_response (VDict d) = Inr (map_of d ''response'' \<noteq> None)"
| "has_response (VList xs) = Inr (VStr ''response'' \<in> set xs)"
| "has_response (VStr s) = Inr (sublist ''response'' s)"
| "has_response v = Inl TypeError"

fun get_response :: "pyval \<Rightarrow> py_error + string" where
  "get_response (VDict d) =
     (case map_of d ''response'' of
        Some (VStr t) \<Rightarrow> Inr t
      | _ \<Rightarrow> Inl TypeError)"
| "get_response v = Inl TypeError"

fun read_lines :: "string \<Rightarrow> string list \<Rightarrow> py_error + string" where
  "read_lines full_text [] = Inr full_text"
| "read_lines full_text (line # lines) =
     (if line = [] then read_lines full_text lines
      else
        (case json_loads line of
           Inl e \<Rightarrow> read_lines full_text lines
         | Inr obj \<Rightarrow>
             (case has_response obj of
                Inl e \<Rightarrow> Inl e
              | Inr False \<Rightarrow> read_lines full_text lines
              | Inr True \<Rightarrow>
                  (case get_response obj of
                     Inl e \<Rightarrow> Inl e
                   | Inr t \<Rightarrow> read_lines (full_text @ t) lines))))"

text \<open>The global name \<open>RATE_LIMIT_SECONDS\<close> as \<open>process_pipeline.py\<close> sees it.\<close>

definition rate_limit_seconds :: "py_error + rat" where
  "rate_limit_seconds = Inl NameError"

definition call_local_llm :: "py_error + string list \<Rightarrow> string option" where
  "call_local_llm response =
     (case response of
        Inl e \<Rightarrow> None
      | Inr lines \<Rightarrow>
          (case read_lines [] lines of
             Inl e \<Rightarrow> None
           | Inr full_text \<Rightarrow>
               (case rate_limit_seconds of
                  Inl e \<Rightarrow> None
                | Inr seconds \<Rightarrow>
                    (if strip full_text \<noteq> [] then Some (strip full_text) else None))))"

text \<open>
  The service is outside the program and need not answer the same request twice in the
  same way: it is a function of the number of requests made before, the model name and
  the prompt. The client's state is that number.
\<close>

type_synonym service = "nat \<Rightarrow> string \<Rightarrow> string \<Rightarrow> py_error + string list"

text \<open>
  The inner loop \<open>for attempt in range(2)\<close> of \<open>process_video_file\<close>, for one model.
  The result is \<open>llm_out\<close> after the loop and the number of requests made. \<open>if llm_out\<close>
  and \<open>if parsed\<close> are truth value tests.
\<close>

fun try_model ::
  "service \<Rightarrow> string \<Rightarrow> string \<Rightarrow> nat list \<Rightarrow> nat \<Rightarrow> py_error + (string option \<times> nat)" where
  "try_model svc prompt model [] n = Inr (None, n)"
| "try_model svc prompt model (attempt # rest) n =
     (case call_local_llm (svc n model prompt) of
        None \<Rightarrow> try_model svc prompt model rest (Suc n)
      | Some llm_out \<Rightarrow>
          (if llm_out = [] then try_model svc prompt model rest (Suc n)
           else
             (case safe_parse_json llm_out of
                Inl e \<Rightarrow> Inl e
              | Inr parsed \<Rightarrow>
                  (if truthy parsed then Inr (Some llm_out, Suc n)
                   else try_model svc prompt model rest (Suc n)))))"

text \<open>The outer loop \<open>for model in models_to_try\<close>, left at the first model whose
  inner loop ended with an output.\<close>

fun try_models ::
  "service \<Rightarrow> string \<Rightarrow> string list \<Rightarrow> nat \<Rightarrow> py_error + (string option \<times> nat)" where
  "try_models svc prompt [] n = Inr (None, n)"
| "try_models svc prompt (model # models) n =
     (case try_model svc prompt model [0 ..< 2] n of
        Inl e \<Rightarrow> Inl e
      | Inr (Some llm_out, n') \<Rightarrow> Inr (Some llm_out, n')
      | Inr (None, n') \<Rightarrow> try_models svc prompt models n')"

section \<open>The slide assembler\<close>

text \<open>A slide is the dictionary \<open>process_video_file\<close> appends. Title, bullets and notes
  are whatever values the parsed object holds; the key \<open>notes\<close> is the field
  \<open>slide_notes\<close>.\<close>

record slide =
  title :: pyval
  bullets :: pyval
  slide_notes :: pyval
  diagram :: "DiagramSpec option"
  start_time :: rat
  video_id :: string
  screenshot :: "string option"

definition then_do :: "py_error + 'a \<Rightarrow> ('a \<Rightarrow> py_error + 'b) \<Rightarrow> py_error + 'b" where
  "then_do m f = (case m of Inl e \<Rightarrow> Inl e | Inr x \<Rightarrow> f x)"

text \<open>\<open>parsed.get(key, default)\<close>: only a dictionary has \<open>get\<close>.\<close>

fun py_get :: "pyval \<Rightarrow> string \<Rightarrow> pyval \<Rightarrow> py_error + pyval" where
  "py_get (VDict d) k dflt = Inr (case map_of d k of Some v \<Rightarrow> v | None \<Rightarrow> dflt)"
| "py_get v k dflt = Inl AttributeError"

definition py_or :: "pyval \<Rightarrow> pyval \<Rightarrow> pyval" where
  "py_or a b = (if truthy a then a else b)"

text \<open>\<open>x.lower()\<close>: only a string has \<open>lower\<close>.\<close>

fun py_lower :: "pyval \<Rightarrow> py_error + string" where
  "py_lower (VStr s) = Inr (lower s)"
| "py_lower v = Inl AttributeError"

text \<open>\<open>normalize_mermaid(diagram_type, mermaid_raw)\<close> on the value the caller passes:
  a false value returns at \<open>not mermaid\<close>, and a true value that is no string has no
  \<open>strip\<close>.\<close>

fun normalize_mermaid_val :: "string \<Rightarrow> pyval \<Rightarrow> py_error + DiagramSpec option" where
  "normalize_mermaid_val dtype (VStr m) = Inr (normalize_mermaid dtype m)"
| "normalize_mermaid_val dtype v = (if truthy v then Inl AttributeError else Inr None)"

text \<open>Lines 730 to 752 of \<open>process_video_file\<close>: from the parsed object to the slide.\<close>

definition make_slide ::
  "pyval \<Rightarrow> string \<Rightarrow> caption list \<Rightarrow> frame list \<Rightarrow> string \<Rightarrow> py_error + slide" where
  "make_slide parsed chunk vtt_segments frames vid =
     then_do (py_get parsed ''diagram_type'' VNone) (\<lambda>dt_val.
     then_do (py_lower (py_or dt_val (VStr ''none''))) (\<lambda>dtype.
     then_do (py_get parsed ''mermaid'' VNone) (\<lambda>m_val.
     then_do (if dtype \<noteq> ''none''
              then normalize_mermaid_val dtype (py_or m_val (VStr []))
              else Inr None) (\<lambda>diagram_spec.
     let start = find_start_time_for_chunk chunk vtt_segments;
         shot = find_closest_frame start frames
     in
     then_do (py_get parsed ''title'' (VStr [])) (\<lambda>t.
     then_do (py_get parsed ''bullets'' (VList [])) (\<lambda>b.
     then_do (py_get parsed ''notes'' (VStr [])) (\<lambda>nt.
       Inr \<lparr>title = t, bullets = b, slide_notes = nt, diagram = diagram_spec,
            start_time = start, video_id = vid, screenshot = shot\<rparr>)))))))"

text \<open>
  One iteration of \<open>for idx, chunk in enumerate(chunks, start=1)\<close>: \<open>None\<close> is the
  \<open>continue\<close> after "All models failed", \<open>Some\<close> the slide that is appended. The prompt
  builder is a parameter: the service may answer any prompt in any way.
\<close>

definition process_chunk ::
  "service \<Rightarrow> string list \<Rightarrow> caption list \<Rightarrow> frame list \<Rightarrow> string \<Rightarrow> string \<Rightarrow> string \<Rightarrow> nat \<Rightarrow>
   py_error + (slide option \<times> nat)" where
  "process_chunk svc models_to_try vtt_segments frames vid prompt chunk n =
     then_do (try_models svc prompt models_to_try n) (\<lambda>(llm_out, n').
       (case llm_out of
          None \<Rightarrow> Inr (None, n')
        | Some out \<Rightarrow>
            then_do (safe_parse_json out) (\<lambda>parsed.
            then_do (make_slide parsed chunk vtt_segments frames vid) (\<lambda>sl.
              Inr (Some sl, n')))))"

fun slide_loop ::
  "service \<Rightarrow> string list \<Rightarrow> caption list \<Rightarrow> frame list \<Rightarrow> string \<Rightarrow>
   (nat \<Rightarrow> string \<Rightarrow> string) \<Rightarrow> (nat \<times> string) list \<Rightarrow> nat \<Rightarrow> slide list \<Rightarrow>
   py_error + (slide list \<times> nat)" where
  "slide_loop svc ms segs frames vid build_prompt [] n slides = Inr (slides, n)"
| "slide_loop svc ms segs frames vid build_prompt ((idx, chunk) # rest) n slides =
     (case process_chunk svc ms segs frames vid (build_prompt idx chunk) chunk n of
        Inl e \<Rightarrow> Inl e
      | Inr (None, n') \<Rightarrow> slide_loop svc ms segs frames vid build_prompt rest n' slides
      | Inr (Some sl, n') \<Rightarrow>
          slide_loop svc ms segs frames vid build_prompt rest n' (slides @ [sl]))"

text \<open>The loop of \<open>process_video_file\<close> over the chunks, numbered from 1, with
  \<open>models_to_try = [Config.MODEL_NAME] + Config.FALLBACK_MODELS\<close> and no slides at the
  start.\<close>

definition generate_slides ::
  "service \<Rightarrow> string \<Rightarrow> string list \<Rightarrow> caption list \<Rightarrow> frame list \<Rightarrow> string \<Rightarrow>
   (nat \<Rightarrow> string \<Rightarrow> string) \<Rightarrow> string list \<Rightarrow> py_error + (slide list \<times> nat)" where
  "generate_slides svc model_name fallback_models segs frames vid build_prompt chunks =
     slide_loop svc (model_name # fallback_models) segs frames vid build_prompt
       (zip [1 ..< Suc (length chunks)] chunks) 0 []"

section \<open>Properties of the generation client\<close>

lemma call_local_llm_none: "call_local_llm response = None"
  by (simp add: call_local_llm_def rate_limit_seconds_def split: sum.splits)

lemma try_model_none:
  "try_model svc prompt model attempts n = Inr (None, n + length attempts)"
  by (induction attempts arbitrary: n) (simp_all add: call_local_llm_none)

lemma try_models_none:
  "try_models svc prompt ms n = Inr (None, n + 2 * length ms)"
  by (induction ms arbitrary: n) (simp_all add: try_model_none)

lemma process_chunk_none:
  "process_chunk svc ms segs frames vid prompt chunk n = Inr (None, n + 2 * length ms)"
  by (simp add: process_chunk_def then_do_def try_models_none)

text \<open>A service for concrete runs: the primary model is unreachable, and the model
  \<open>llama3:latest\<close> streams one line whose text is \<open>{"title": "T"}\<close>. \<open>esc_quote\<close> is
  the escaped quotation mark of the streamed line.\<close>

definition esc_quote :: string where
  "esc_quote = [CHR 0x5C, CHR 0x22]"

definition fallback_service :: service where
  \<open>fallback_service n model prompt =
     (if model = ''llama3:latest''
      then Inr [''{"response": "{'' @ esc_quote @ ''title'' @ esc_quote @ '': '' @
                esc_quote @ ''T'' @ esc_quote @ ''}"}'']
      else Inl RequestException)\<close>

text \<open>
  C1. The fallback scenario on the code. For every answer of the service
  \<open>call_local_llm\<close> returns \<open>None\<close>, so for every service, prompt and list of models
  the client makes two requests per model and ends without output. In the scenario
  itself the streamed line of the fallback model is read to the text \<open>{"title": "T"}\<close>,
  which the extractor parses, yet the call returns \<open>None\<close>: with the two models the
  client makes 4 requests, not 3, and the chunk gets no slide.
\<close>

theorem fallback_text_discarded:
  \<open>call_local_llm response = None \<and>
   try_models svc prompt ms n = Inr (None, n + 2 * length ms) \<and>
   (case fallback_service 2 ''llama3:latest'' ''p'' of
      Inl e \<Rightarrow> Inl e
    | Inr lines \<Rightarrow> read_lines [] lines) = Inr ''{"title": "T"}'' \<and>
   safe_parse_json ''{"title": "T"}'' = Inr (VDict [(''title'', VStr ''T'')]) \<and>
   call_local_llm (fallback_service 2 ''llama3:latest'' ''p'') = None \<and>
   try_models fallback_service ''p'' [''qwen2.5-coder:7b'', ''llama3:latest''] 0 =
     Inr (None, 4) \<and>
   process_chunk fallback_service [''qwen2.5-coder:7b'', ''llama3:latest''] [] [] ''vid''
       ''p'' ''some words'' 0 = Inr (None, 4)\<close>
proof -
  have r: \<open>(case fallback_service 2 ''llama3:latest'' ''p'' of
      Inl e \<Rightarrow> Inl e
    | Inr lines \<Rightarrow> read_lines [] lines) = Inr ''{"title": "T"}''\<close>
    by code_simp
  have p: \<open>safe_parse_json ''{"title": "T"}'' = Inr (VDict [(''title'', VStr ''T'')])\<close>
    by code_simp
  show ?thesis
    using r p by (simp add: call_local_llm_none try_models_none process_chunk_none)
qed

section \<open>Properties of the slide assembler\<close>

lemma lower_char_idem: "lower_char (lower_char c) = lower_char c"
  by (auto simp: lower_char_def Let_def)

lemma lower_idem: "lower (lower s) = lower s"
  by (simp add: lower_def lower_char_idem)

lemma normalize_mermaid_other:
  assumes "lower dt \<notin> {''mindmap'', ''flowchart'', ''hierarchy'', ''timeline''}"
    and "strip m \<noteq> []"
  shows "normalize_mermaid dt m = Some \<lparr>diagram_type = lower dt, mermaid = trim_fences m\<rparr>"
  using assms by (auto simp: normalize_mermaid_def Let_def strip_Nil)

lemma make_slide_defaults:
  assumes "make_slide (VDict d) chunk segs frames vid = Inr sl"
  shows "title sl = (case map_of d ''title'' of Some v \<Rightarrow> v | None \<Rightarrow> VStr [])"
    and "bullets sl = (case map_of d ''bullets'' of Some v \<Rightarrow> v | None \<Rightarrow> VList [])"
    and "slide_notes sl = (case map_of d ''notes'' of Some v \<Rightarrow> v | None \<Rightarrow> VStr [])"
  using assms
  by (auto simp: make_slide_def then_do_def Let_def split: sum.splits if_splits)

lemma make_slide_none:
  assumes "case map_of d ''diagram_type'' of
      None \<Rightarrow> True
    | Some v \<Rightarrow> \<not> truthy v \<or> (\<exists>t. v = VStr t \<and> lower t = ''none'')"
  shows "\<exists>sl. make_slide (VDict d) chunk segs frames vid = Inr sl \<and> diagram sl = None"
proof -
  have l: "lower ''none'' = ''none''" by code_simp
  from assms have "py_lower (py_or (case map_of d ''diagram_type'' of Some v \<Rightarrow> v | None \<Rightarrow> VNone)
      (VStr ''none'')) = Inr ''none''"
    by (auto simp: py_or_def l split: option.splits)
  then show ?thesis
    by (simp add: make_slide_def then_do_def Let_def)
qed

lemma make_slide_other:
  assumes "map_of d ''diagram_type'' = Some (VStr t)" and "t \<noteq> []"
    and "lower t \<notin> {''mindmap'', ''flowchart'', ''hierarchy'', ''timeline'', ''none''}"
    and "map_of d ''mermaid'' = Some (VStr m)" and "strip m \<noteq> []"
  shows "\<exists>sl. make_slide (VDict d) chunk segs frames vid = Inr sl \<and>
    diagram sl = Some \<lparr>diagram_type = lower t, mermaid = trim_fences m\<rparr>"
proof -
  from assms(5) have m: "m \<noteq> []" by (auto simp: strip_Nil)
  from assms(3) have "lower (lower t) \<notin> {''mindmap'', ''flowchart'', ''hierarchy'', ''timeline''}"
    by (simp add: lower_idem)
  from normalize_mermaid_other [OF this assms(5)]
  have n: "normalize_mermaid (lower t) m =
      Some \<lparr>diagram_type = lower t, mermaid = trim_fences m\<rparr>"
    by (simp add: lower_idem)
  from assms(3) have "lower t \<noteq> ''none''" by simp
  then show ?thesis
    using assms(1,2,4) m n
    by (simp add: make_slide_def then_do_def Let_def py_or_def)
qed


text \<open>
  C7 (as the code has it). For a parsed dictionary: a slide that is built takes title,
  bullets and notes from the dictionary, with the empty string, the empty list and the
  empty string for a missing key. A \<open>diagram_type\<close> that is missing, false
  (\<open>None\<close>, the empty string) or "none" in any letter case gives a slide without
  diagram. Any other string is lower-cased and kept: outside the four known types, with
  a non-blank \<open>mermaid\<close> string, the slide carries a diagram of that type whose text is
  the trimmed \<open>mermaid\<close> text.
\<close>

theorem make_slide_diagram_type:
  "(make_slide (VDict d) chunk segs frames vid = Inr sl \<longrightarrow>
      title sl = (case map_of d ''title'' of Some v \<Rightarrow> v | None \<Rightarrow> VStr []) \<and>
      bullets sl = (case map_of d ''bullets'' of Some v \<Rightarrow> v | None \<Rightarrow> VList []) \<and>
      slide_notes sl = (case map_of d ''notes'' of Some v \<Rightarrow> v | None \<Rightarrow> VStr [])) \<and>
   ((case map_of d ''diagram_type'' of
       None \<Rightarrow> True
     | Some v \<Rightarrow> \<not> truthy v \<or> (\<exists>t. v = VStr t \<and> lower t = ''none'')) \<longrightarrow>
      (\<exists>s. make_slide (VDict d) chunk segs frames vid = Inr s \<and> diagram s = None)) \<and>
   (map_of d ''diagram_type'' = Some (VStr t) \<and> t \<noteq> [] \<and>
    lower t \<notin> {''mindmap'', ''flowchart'', ''hierarchy'', ''timeline'', ''none''} \<and>
    map_of d ''mermaid'' = Some (VStr m) \<and> strip m \<noteq> [] \<longrightarrow>
      (\<exists>s. make_slide (VDict d) chunk segs frames vid = Inr s \<and>
         diagram s = Some \<lparr>diagram_type = lower t, mermaid = trim_fences m\<rparr>))"
proof (intro conjI impI)
  assume a: "make_slide (VDict d) chunk segs frames vid = Inr sl"
  show "title sl = (case map_of d ''title'' of Some v \<Rightarrow> v | None \<Rightarrow> VStr [])"
    by (rule make_slide_defaults(1) [OF a])
  show "bullets sl = (case map_of d ''bullets'' of Some v \<Rightarrow> v | None \<Rightarrow> VList [])"
    by (rule make_slide_defaults(2) [OF a])
  show "slide_notes sl = (case map_of d ''notes'' of Some v \<Rightarrow> v | None \<Rightarrow> VStr [])"
    by (rule make_slide_defaults(3) [OF a])
next
  assume "case map_of d ''diagram_type'' of
       None \<Rightarrow> True
     | Some v \<Rightarrow> \<not> truthy v \<or> (\<exists>t. v = VStr t \<and> lower t = ''none'')"
  then show "\<exists>s. make_slide (VDict d) chunk segs frames vid = Inr s \<and> diagram s = None"
    by (rule make_slide_none)
next
  assume "map_of d ''diagram_type'' = Some (VStr t) \<and> t \<noteq> [] \<and>
    lower t \<notin> {''mindmap'', ''flowchart'', ''hierarchy'', ''timeline'', ''none''} \<and>
    map_of d ''mermaid'' = Some (VStr m) \<and> strip m \<noteq> []"
  then show "\<exists>s. make_slide (VDict d) chunk segs frames vid = Inr s \<and>
         diagram s = Some \<lparr>diagram_type = lower t, mermaid = trim_fences m\<rparr>"
    using make_slide_other by blast
qed

theorem make_slide_diagram_type_witness:
  "(\<exists>s. make_slide (VDict [(''diagram_type'', VStr ''Sequence''), (''mermaid'', VStr '' A->>B '')])
          ''some words'' [] [] ''vid'' = Inr s \<and>
        diagram s = Some \<lparr>diagram_type = ''sequence'', mermaid = ''A->>B''\<rparr>) \<and>
   (\<exists>s. make_slide (VDict [(''title'', VStr ''T''), (''diagram_type'', VNone)])
          ''some words'' [] [] ''vid'' = Inr s \<and> diagram s = None \<and> title s = VStr ''T'')"
proof -
  let ?d = "[(''diagram_type'', VStr ''Sequence''), (''mermaid'', VStr '' A->>B '')]"
  let ?e = "[(''title'', VStr ''T''), (''diagram_type'', VNone)]"
  have h: "map_of ?d ''diagram_type'' = Some (VStr ''Sequence'')" "''Sequence'' \<noteq> []"
    "map_of ?d ''mermaid'' = Some (VStr '' A->>B '')"
    by simp_all
  have k: "lower ''Sequence'' \<notin> {''mindmap'', ''flowchart'', ''hierarchy'', ''timeline'', ''none''}"
    "strip '' A->>B '' \<noteq> []" "lower ''Sequence'' = ''sequence''"
    "trim_fences '' A->>B '' = ''A->>B''"
    by code_simp+
  from make_slide_diagram_type
    [of ?d "''some words''" "[]" "[]" "''vid''" _ "''Sequence''" "'' A->>B ''"] h k(1,2)
  have "\<exists>s. make_slide (VDict ?d) ''some words'' [] [] ''vid'' = Inr s \<and>
      diagram s = Some \<lparr>diagram_type = lower ''Sequence'', mermaid = trim_fences '' A->>B ''\<rparr>"
    by blast
  then have 1: "\<exists>s. make_slide (VDict ?d) ''some words'' [] [] ''vid'' = Inr s \<and>
      diagram s = Some \<lparr>diagram_type = ''sequence'', mermaid = ''A->>B''\<rparr>"
    by (simp only: k(3,4))
  have n: "case map_of ?e ''diagram_type'' of
       None \<Rightarrow> True
     | Some v \<Rightarrow> \<not> truthy v \<or> (\<exists>t. v = VStr t \<and> lower t = ''none'')"
    by simp
  from make_slide_diagram_type [of ?e "''some words''" "[]" "[]" "''vid''"] n
  obtain s where s: "make_slide (VDict ?e) ''some words'' [] [] ''vid'' = Inr s"
    "diagram s = None"
    by blast
  from make_slide_diagram_type [of ?e "''some words''" "[]" "[]" "''vid''" s] s(1)
  have "title s = VStr ''T''" by simp
  with s 1 show ?thesis by blast
qed

theorem make_slide_diagram_type_counterexample:
  "make_slide (VDict [(''diagram_type'', VStr ''sequence''), (''mermaid'', VStr ''A->>B'')])
     ''some words'' [] [] ''vid'' =
   Inr \<lparr>title = VStr [], bullets = VList [], slide_notes = VStr [],
        diagram = Some \<lparr>diagram_type = ''sequence'', mermaid = ''A->>B''\<rparr>,
        start_time = 0, video_id = ''vid'', screenshot = None\<rparr>"
  by code_simp

lemma process_chunk_failed:
  "try_models svc prompt ms n = Inr (None, k) \<Longrightarrow>
   process_chunk svc ms segs frames vid prompt chunk n = Inr (None, k)"
  by (simp add: process_chunk_def then_do_def)

lemma slide_loop_grows:
  "slide_loop svc ms segs frames vid bp chunks n slides = Inr (out, k) \<Longrightarrow>
   \<exists>new. out = slides @ new \<and> length new \<le> length chunks"
proof (induction chunks arbitrary: n slides)
  case Nil
  then show ?case by simp
next
  case (Cons ic chunks)
  obtain idx chunk where ic: "ic = (idx, chunk)" by (cases ic)
  show ?case
  proof (cases "process_chunk svc ms segs frames vid (bp idx chunk) chunk n")
    case (Inl e)
    with Cons.prems ic show ?thesis by simp
  next
    case (Inr r)
    obtain o' n' where r: "r = (o', n')" by (cases r)
    show ?thesis
    proof (cases o')
      case None
      with Cons.prems ic Inr r
      have "slide_loop svc ms segs frames vid bp chunks n' slides = Inr (out, k)" by simp
      from Cons.IH [OF this] show ?thesis by auto
    next
      case (Some sl)
      with Cons.prems ic Inr r
      have "slide_loop svc ms segs frames vid bp chunks n' (slides @ [sl]) = Inr (out, k)"
        by simp
      from Cons.IH [OF this] obtain new where "out = (slides @ [sl]) @ new"
        "length new \<le> length chunks" by blast
      then have "out = slides @ (sl # new) \<and> length (sl # new) \<le> length (ic # chunks)"
        by simp
      then show ?thesis by blast
    qed
  qed
qed

lemma slide_loop_all_fail:
  "\<forall>idx chunk n. try_models svc (bp idx chunk) ms n = Inr (None, n + 2 * length ms) \<Longrightarrow>
   slide_loop svc ms segs frames vid bp chunks n slides =
     Inr (slides, n + 2 * length ms * length chunks)"
proof (induction chunks arbitrary: n)
  case Nil
  then show ?case by simp
next
  case (Cons ic chunks)
  obtain idx chunk where ic: "ic = (idx, chunk)" by (cases ic)
  from Cons.prems have "try_models svc (bp idx chunk) ms n = Inr (None, n + 2 * length ms)"
    by blast
  from process_chunk_failed [OF this]
  have "process_chunk svc ms segs frames vid (bp idx chunk) chunk n =
      Inr (None, n + 2 * length ms)" .
  then show ?case using Cons.IH [OF Cons.prems] by (simp add: ic algebra_simps)
qed

text \<open>
  C8 (as the code has it). A chunk for which every model and attempt fails is left by
  \<open>continue\<close>: the loop goes on with the slides it had, and nothing is appended for the
  chunk. Slides are only ever appended at the end, so a run of the loop keeps the slides
  it started with, in their order, and adds at most one per chunk. When generation fails
  for every chunk the deck is empty, after two requests per model and chunk.
\<close>

theorem slide_loop_records:
  "(try_models svc (bp idx chunk) ms n = Inr (None, k) \<longrightarrow>
      slide_loop svc ms segs frames vid bp ((idx, chunk) # rest) n slides =
      slide_loop svc ms segs frames vid bp rest k slides) \<and>
   (slide_loop svc ms segs frames vid bp numbered n slides = Inr (deck, calls) \<longrightarrow>
      (\<exists>new. deck = slides @ new \<and> length new \<le> length numbered)) \<and>
   (generate_slides svc model_name fallbacks segs frames vid bp chunks = Inr (deck, calls) \<longrightarrow>
      length deck \<le> length chunks) \<and>
   ((\<forall>idx chunk n. try_models svc (bp idx chunk) (model_name # fallbacks) n =
        Inr (None, n + 2 * length (model_name # fallbacks))) \<longrightarrow>
      generate_slides svc model_name fallbacks segs frames vid bp chunks =
        Inr ([], 2 * (1 + length fallbacks) * length chunks))"
proof (intro conjI impI)
  assume "try_models svc (bp idx chunk) ms n = Inr (None, k)"
  from process_chunk_failed [OF this]
  show "slide_loop svc ms segs frames vid bp ((idx, chunk) # rest) n slides =
      slide_loop svc ms segs frames vid bp rest k slides"
    by simp
next
  assume "slide_loop svc ms segs frames vid bp numbered n slides = Inr (deck, calls)"
  then show "\<exists>new. deck = slides @ new \<and> length new \<le> length numbered"
    by (rule slide_loop_grows)
next
  assume "generate_slides svc model_name fallbacks segs frames vid bp chunks = Inr (deck, calls)"
  then have "slide_loop svc (model_name # fallbacks) segs frames vid bp
      (zip [1 ..< Suc (length chunks)] chunks) 0 [] = Inr (deck, calls)"
    by (simp add: generate_slides_def)
  from slide_loop_grows [OF this] show "length deck \<le> length chunks" by auto
next
  assume "\<forall>idx chunk n. try_models svc (bp idx chunk) (model_name # fallbacks) n =
        Inr (None, n + 2 * length (model_name # fallbacks))"
  from slide_loop_all_fail [OF this]
  have "slide_loop svc (model_name # fallbacks) segs frames vid bp
      (zip [1 ..< Suc (length chunks)] chunks) 0 [] =
    Inr ([], 0 + 2 * length (model_name # fallbacks) *
      length (zip [1 ..< Suc (length chunks)] chunks))" .
  moreover have "length (zip [1 ..< Suc (length chunks)] chunks) = length chunks"
    by (simp del: upt_Suc)
  ultimately show "generate_slides svc model_name fallbacks segs frames vid bp chunks =
        Inr ([], 2 * (1 + length fallbacks) * length chunks)"
    by (simp only: generate_slides_def) simp
qed

text \<open>For concrete runs: a service that never answers, and a prompt that is the
  chunk.\<close>

definition dead_service :: service where
  "dead_service n model prompt = Inl RequestException"

definition chunk_prompt :: "nat \<Rightarrow> string \<Rightarrow> string" where
  "chunk_prompt idx chunk = chunk"

theorem slide_loop_records_witness:
  "slide_loop dead_service [''qwen2.5-coder:7b'', ''llama3:latest''] [] [] ''vid'' chunk_prompt
     [(1, ''first chunk''), (2, ''second chunk'')] 0 [] =
   slide_loop dead_service [''qwen2.5-coder:7b'', ''llama3:latest''] [] [] ''vid'' chunk_prompt
     [(2, ''second chunk'')] 4 [] \<and>
   generate_slides dead_service ''qwen2.5-coder:7b'' [''llama3:latest''] [] [] ''vid''
     chunk_prompt [''first chunk'', ''second chunk''] = Inr ([], 8) \<and>
   length ([] :: slide list) \<le> length [''first chunk'', ''second chunk''] \<and>
   (\<exists>new. ([] :: slide list) = [] @ new \<and>
      length new \<le> length [(2 :: nat, ''second chunk'')])"
proof -
  let ?ms = "[''qwen2.5-coder:7b'', ''llama3:latest'']"
  have f: "try_models dead_service (chunk_prompt 1 ''first chunk'') ?ms 0 = Inr (None, 4)"
    by code_simp
  have a: "slide_loop dead_service ?ms [] [] ''vid'' chunk_prompt
      [(1, ''first chunk''), (2, ''second chunk'')] 0 [] =
    slide_loop dead_service ?ms [] [] ''vid'' chunk_prompt [(2, ''second chunk'')] 4 []"
    using slide_loop_records
      [where svc = dead_service and bp = chunk_prompt and idx = 1 and chunk = "''first chunk''"
         and ms = ?ms and n = 0 and k = 4 and segs = "[]" and frames = "[]"
         and vid = "''vid''" and rest = "[(2, ''second chunk'')]" and slides = "[]"] f
    by blast
  have d: "\<forall>idx chunk n. try_models dead_service (chunk_prompt idx chunk) ?ms n =
      Inr (None, n + 2 * length ?ms)"
    by (simp add: try_models_none)
  have b: "generate_slides dead_service ''qwen2.5-coder:7b'' [''llama3:latest''] [] [] ''vid''
     chunk_prompt [''first chunk'', ''second chunk''] = Inr ([], 8)"
    using slide_loop_records
      [where svc = dead_service and model_name = "''qwen2.5-coder:7b''"
         and fallbacks = "[''llama3:latest'']" and segs = "[]" and frames = "[]"
         and vid = "''vid''" and bp = chunk_prompt
         and chunks = "[''first chunk'', ''second chunk'']"] d
    by simp
  have c: "length ([] :: slide list) \<le> length [''first chunk'', ''second chunk'']"
    using slide_loop_records
      [where svc = dead_service and model_name = "''qwen2.5-coder:7b''"
         and fallbacks = "[''llama3:latest'']" and segs = "[]" and frames = "[]"
         and vid = "''vid''" and bp = chunk_prompt
         and chunks = "[''first chunk'', ''second chunk'']" and deck = "[]" and calls = 8] b
    by blast
  have g: "slide_loop dead_service ?ms [] [] ''vid'' chunk_prompt [(2, ''second chunk'')] 4 [] =
      Inr ([], 8)"
    by code_simp
  have e: "\<exists>new. ([] :: slide list) = [] @ new \<and>
      length new \<le> length [(2 :: nat, ''second chunk'')]"
    by (rule slide_loop_records
      [where svc = dead_service and bp = chunk_prompt and ms = ?ms and segs = "[]"
         and frames = "[]" and vid = "''vid''" and numbered = "[(2, ''second chunk'')]"
         and n = 4 and slides = "[]" and deck = "[]" and calls = 8,
       THEN conjunct2, THEN conjunct1, rule_format, OF g])
  show ?thesis
    by (intro conjI) (rule a, rule b, rule c, rule e)
qed

theorem slide_loop_one_record_per_chunk_counterexample:
  "generate_slides dead_service ''qwen2.5-coder:7b'' [''llama3:latest''] [] [] ''vid''
     chunk_prompt [''only chunk''] = Inr ([], 4)"
  by code_simp

end
